theory Spec2Isabelle
  imports Main
begin

section \<open>Data model (shared/schema.ts)\<close>

text \<open>
  The two row types of the schema. Identifiers, tokens and e-mail addresses are strings;
  a timestamp is a natural number; a nullable column is an \<open>option\<close>.
\<close>

record User =
  id_u :: string
  username :: string
  password :: string

record InsertUser =
  ins_username :: string
  ins_password :: string

record WaitlistEmail =
  id_w :: string
  email :: string
  createdAt :: nat
  confirmed :: bool
  confirmationToken :: "string option"
  confirmedAt :: "nat option"

record InsertWaitlistEmail =
  ins_email :: string

text \<open>
  A thrown JavaScript \<open>Error\<close> with its message, and the failure of a database statement
  that would break a uniqueness constraint of the schema.
\<close>

datatype error = Error string | UniqueViolation

section \<open>JavaScript \<open>Map\<close>\<close>

text \<open>
  A \<open>Map\<close> keeps its entries in insertion order. \<open>set\<close> on a key that is present replaces
  the value where it stands; on a new key it appends the entry. \<open>get\<close> returns the value
  of the key, \<open>size\<close> is the number of entries.
\<close>

fun map_set :: "'k \<Rightarrow> 'v \<Rightarrow> ('k \<times> 'v) list \<Rightarrow> ('k \<times> 'v) list" where
  "map_set k v [] = [(k, v)]"
| "map_set k v ((k', v') # m) = (if k' = k then (k, v) # m else (k', v') # map_set k v m)"

fun map_get :: "('k \<times> 'v) list \<Rightarrow> 'k \<Rightarrow> 'v option" where
  "map_get [] k = None"
| "map_get ((k', v') # m) k = (if k' = k then Some v' else map_get m k)"

section \<open>MemStorage\<close>

text \<open>
  The two private maps of the class. The values of \<open>randomUUID()\<close> and \<open>new Date()\<close> are
  arguments of the operations that draw them. Every operation returns its result together
  with the storage after the call.
\<close>

record MemStorage =
  users :: "(string \<times> User) list"
  waitlistEmails :: "(string \<times> WaitlistEmail) list"

definition mem_new :: MemStorage where
  "mem_new = \<lparr>users = [], waitlistEmails = []\<rparr>"

definition mem_getUser :: "MemStorage \<Rightarrow> string \<Rightarrow> User option" where
  "mem_getUser st i = map_get (users st) i"

definition mem_getUserByUsername :: "MemStorage \<Rightarrow> string \<Rightarrow> User option" where
  "mem_getUserByUsername st name = find (\<lambda>user. username user = name) (map snd (users st))"

definition mem_createUser :: "MemStorage \<Rightarrow> InsertUser \<Rightarrow> string \<Rightarrow> User \<times> MemStorage" where
  "mem_createUser st insertUser new_id =
     (let user = \<lparr>id_u = new_id, username = ins_username insertUser,
                  password = ins_password insertUser\<rparr>
      in (user, st\<lparr>users := map_set new_id user (users st)\<rparr>))"

definition mem_addToWaitlist ::
  "MemStorage \<Rightarrow> InsertWaitlistEmail \<Rightarrow> string \<Rightarrow> string \<Rightarrow> nat \<Rightarrow> WaitlistEmail \<times> MemStorage" where
  "mem_addToWaitlist st insertWaitlistEmail new_id new_token now =
     (let waitlistEmail = \<lparr>id_w = new_id, email = ins_email insertWaitlistEmail,
                           createdAt = now, confirmed = False,
                           confirmationToken = Some new_token, confirmedAt = None\<rparr>
      in (waitlistEmail,
          st\<lparr>waitlistEmails := map_set (email waitlistEmail) waitlistEmail (waitlistEmails st)\<rparr>))"

definition mem_getWaitlistEmail :: "MemStorage \<Rightarrow> string \<Rightarrow> WaitlistEmail option" where
  "mem_getWaitlistEmail st e = map_get (waitlistEmails st) e"

definition mem_getWaitlistCount :: "MemStorage \<Rightarrow> nat" where
  "mem_getWaitlistCount st = length (waitlistEmails st)"

text \<open>
  The loop of \<open>confirmEmail\<close> runs over a snapshot of the entries and returns at the first
  entry whose token is the given one and which is not confirmed.
\<close>

definition confirm_entry :: "WaitlistEmail \<Rightarrow> nat \<Rightarrow> WaitlistEmail" where
  "confirm_entry w now = w\<lparr>confirmed := True, confirmedAt := Some now, confirmationToken := None\<rparr>"

fun mem_confirmEmail_loop ::
  "(string \<times> WaitlistEmail) list \<Rightarrow> MemStorage \<Rightarrow> string \<Rightarrow> nat \<Rightarrow> WaitlistEmail option \<times> MemStorage" where
  "mem_confirmEmail_loop [] st token now = (None, st)"
| "mem_confirmEmail_loop ((e, waitlistEmail) # rest) st token now =
     (if confirmationToken waitlistEmail = Some token \<and> \<not> confirmed waitlistEmail
      then (let confirmedEmail = confirm_entry waitlistEmail now
            in (Some confirmedEmail,
                st\<lparr>waitlistEmails := map_set e confirmedEmail (waitlistEmails st)\<rparr>))
      else mem_confirmEmail_loop rest st token now)"

definition mem_confirmEmail :: "MemStorage \<Rightarrow> string \<Rightarrow> nat \<Rightarrow> WaitlistEmail option \<times> MemStorage" where
  "mem_confirmEmail st token now = mem_confirmEmail_loop (waitlistEmails st) st token now"

definition mem_getWaitlistEmailByToken :: "MemStorage \<Rightarrow> string \<Rightarrow> WaitlistEmail option" where
  "mem_getWaitlistEmailByToken st token =
     find (\<lambda>waitlistEmail. confirmationToken waitlistEmail = Some token) (map snd (waitlistEmails st))"

definition mem_regenerateConfirmationToken ::
  "MemStorage \<Rightarrow> string \<Rightarrow> string \<Rightarrow> (error + string) \<times> MemStorage" where
  "mem_regenerateConfirmationToken st e newToken =
     (case map_get (waitlistEmails st) e of
        Some waitlistEmail \<Rightarrow>
          (let updatedEmail = waitlistEmail\<lparr>confirmationToken := Some newToken\<rparr>
           in (Inr newToken, st\<lparr>waitlistEmails := map_set e updatedEmail (waitlistEmails st)\<rparr>))
      | None \<Rightarrow> (Inl (Error ''Email not found''), st))"

section \<open>DatabaseStorage\<close>

text \<open>
  The database is PostgreSQL behind an object-relational mapper; neither is code of the
  repository. A table is the list of its rows. What the schema declares is kept: the
  primary key and the \<open>unique\<close> columns (for a nullable column the rows holding NULL do not
  collide), and the column defaults. A statement whose resulting table would break a
  constraint fails as a whole and leaves the table as it was; an UPDATE that matches no
  row writes nothing. \<open>RETURNING\<close> gives the rows written, and the destructuring
  \<open>const [x] = rows\<close> takes the first of them, if any.
\<close>

record DatabaseStorage =
  users_table :: "User list"
  waitlist_emails :: "WaitlistEmail list"

definition db_new :: DatabaseStorage where
  "db_new = \<lparr>users_table = [], waitlist_emails = []\<rparr>"

fun tokens_of :: "WaitlistEmail list \<Rightarrow> string list" where
  "tokens_of [] = []"
| "tokens_of (w # ws) =
     (case confirmationToken w of None \<Rightarrow> tokens_of ws | Some t \<Rightarrow> t # tokens_of ws)"

definition users_ok :: "User list \<Rightarrow> bool" where
  "users_ok rows = (distinct (map id_u rows) \<and> distinct (map username rows))"

definition unique_ok :: "WaitlistEmail list \<Rightarrow> bool" where
  "unique_ok rows =
     (distinct (map id_w rows) \<and> distinct (map email rows) \<and> distinct (tokens_of rows))"

definition first :: "'a list \<Rightarrow> 'a option" where
  "first rows = (case rows of [] \<Rightarrow> None | x # _ \<Rightarrow> Some x)"

definition insert_returning ::
  "WaitlistEmail \<Rightarrow> WaitlistEmail list \<Rightarrow> error + (WaitlistEmail \<times> WaitlistEmail list)" where
  "insert_returning row rows =
     (if unique_ok (rows @ [row]) then Inr (row, rows @ [row]) else Inl UniqueViolation)"

definition update_returning ::
  "(WaitlistEmail \<Rightarrow> bool) \<Rightarrow> (WaitlistEmail \<Rightarrow> WaitlistEmail) \<Rightarrow> WaitlistEmail list \<Rightarrow>
     error + (WaitlistEmail list \<times> WaitlistEmail list)" where
  "update_returning cond upd rows =
     (if filter cond rows = [] then Inr ([], rows)
      else (let rows' = map (\<lambda>r. if cond r then upd r else r) rows
            in if unique_ok rows' then Inr (map upd (filter cond rows), rows')
               else Inl UniqueViolation))"

definition db_getUser :: "DatabaseStorage \<Rightarrow> string \<Rightarrow> User option" where
  "db_getUser db i = first (filter (\<lambda>u. id_u u = i) (users_table db))"

definition db_getUserByUsername :: "DatabaseStorage \<Rightarrow> string \<Rightarrow> User option" where
  "db_getUserByUsername db name = first (filter (\<lambda>u. username u = name) (users_table db))"

definition db_createUser ::
  "DatabaseStorage \<Rightarrow> InsertUser \<Rightarrow> string \<Rightarrow> (error + User) \<times> DatabaseStorage" where
  "db_createUser db insertUser default_id =
     (let user = \<lparr>id_u = default_id, username = ins_username insertUser,
                  password = ins_password insertUser\<rparr>
      in if users_ok (users_table db @ [user])
         then (Inr user, db\<lparr>users_table := users_table db @ [user]\<rparr>)
         else (Inl UniqueViolation, db))"

definition db_addToWaitlist ::
  "DatabaseStorage \<Rightarrow> InsertWaitlistEmail \<Rightarrow> string \<Rightarrow> string \<Rightarrow> nat \<Rightarrow>
     (error + WaitlistEmail) \<times> DatabaseStorage" where
  "db_addToWaitlist db insertWaitlistEmail default_id new_token now =
     (let row = \<lparr>id_w = default_id, email = ins_email insertWaitlistEmail,
                 createdAt = now, confirmed = False,
                 confirmationToken = Some new_token, confirmedAt = None\<rparr>
      in case insert_returning row (waitlist_emails db) of
           Inl err \<Rightarrow> (Inl err, db)
         | Inr (waitlistEmail, rows') \<Rightarrow> (Inr waitlistEmail, db\<lparr>waitlist_emails := rows'\<rparr>))"

definition db_getWaitlistEmail :: "DatabaseStorage \<Rightarrow> string \<Rightarrow> WaitlistEmail option" where
  "db_getWaitlistEmail db e = first (filter (\<lambda>r. email r = e) (waitlist_emails db))"

definition db_getWaitlistCount :: "DatabaseStorage \<Rightarrow> nat" where
  "db_getWaitlistCount db = length (waitlist_emails db)"

definition db_confirmEmail ::
  "DatabaseStorage \<Rightarrow> string \<Rightarrow> nat \<Rightarrow> (error + WaitlistEmail option) \<times> DatabaseStorage" where
  "db_confirmEmail db token now =
     (case update_returning (\<lambda>r. confirmationToken r = Some token \<and> \<not> confirmed r)
             (\<lambda>r. confirm_entry r now) (waitlist_emails db) of
        Inl err \<Rightarrow> (Inl err, db)
      | Inr (returned, rows') \<Rightarrow> (Inr (first returned), db\<lparr>waitlist_emails := rows'\<rparr>))"

definition db_getWaitlistEmailByToken :: "DatabaseStorage \<Rightarrow> string \<Rightarrow> WaitlistEmail option" where
  "db_getWaitlistEmailByToken db token =
     first (filter (\<lambda>r. confirmationToken r = Some token) (waitlist_emails db))"

definition db_regenerateConfirmationToken ::
  "DatabaseStorage \<Rightarrow> string \<Rightarrow> string \<Rightarrow> (error + string) \<times> DatabaseStorage" where
  "db_regenerateConfirmationToken db e newToken =
     (case update_returning (\<lambda>r. email r = e) (\<lambda>r. r\<lparr>confirmationToken := Some newToken\<rparr>)
             (waitlist_emails db) of
        Inl err \<Rightarrow> (Inl err, db)
      | Inr (returned, rows') \<Rightarrow>
          (case first returned of
             None \<Rightarrow> (Inl (Error ''Email not found''), db\<lparr>waitlist_emails := rows'\<rparr>)
           | Some updatedEmail \<Rightarrow> (Inr newToken, db\<lparr>waitlist_emails := rows'\<rparr>)))"

section \<open>Sequences of storage calls\<close>

text \<open>
  The calls that write, each with the random values and the clock reading it draws. The
  reading calls (\<open>getUser\<close>, \<open>getWaitlistEmail\<close>, \<open>getWaitlistCount\<close>, ...) are functions
  of the storage alone and leave it as it is. A step tells whether the call returned
  (\<open>True\<close>) or threw; a run counts the \<open>addToWaitlist\<close> calls that returned.
\<close>

datatype storage_op =
    CreateUser InsertUser string
  | AddToWaitlist InsertWaitlistEmail string string nat
  | ConfirmEmail string nat
  | RegenerateConfirmationToken string string

fun is_add :: "storage_op \<Rightarrow> bool" where
  "is_add (AddToWaitlist _ _ _ _) = True"
| "is_add _ = False"

fun returned :: "(error + 'a) \<Rightarrow> bool" where
  "returned (Inl _) = False"
| "returned (Inr _) = True"

fun mem_step :: "MemStorage \<Rightarrow> storage_op \<Rightarrow> bool \<times> MemStorage" where
  "mem_step st (CreateUser ins i) = (True, snd (mem_createUser st ins i))"
| "mem_step st (AddToWaitlist ins i t now) = (True, snd (mem_addToWaitlist st ins i t now))"
| "mem_step st (ConfirmEmail t now) = (True, snd (mem_confirmEmail st t now))"
| "mem_step st (RegenerateConfirmationToken e t) =
     (returned (fst (mem_regenerateConfirmationToken st e t)),
      snd (mem_regenerateConfirmationToken st e t))"

fun mem_run :: "MemStorage \<Rightarrow> storage_op list \<Rightarrow> nat \<times> MemStorage" where
  "mem_run st [] = (0, st)"
| "mem_run st (c # cs) =
     (let (ok, st') = mem_step st c; (n, st'') = mem_run st' cs
      in ((if ok \<and> is_add c then 1 else 0) + n, st''))"

fun db_step :: "DatabaseStorage \<Rightarrow> storage_op \<Rightarrow> bool \<times> DatabaseStorage" where
  "db_step db (CreateUser ins i) =
     (returned (fst (db_createUser db ins i)), snd (db_createUser db ins i))"
| "db_step db (AddToWaitlist ins i t now) =
     (returned (fst (db_addToWaitlist db ins i t now)), snd (db_addToWaitlist db ins i t now))"
| "db_step db (ConfirmEmail t now) =
     (returned (fst (db_confirmEmail db t now)), snd (db_confirmEmail db t now))"
| "db_step db (RegenerateConfirmationToken e t) =
     (returned (fst (db_regenerateConfirmationToken db e t)),
      snd (db_regenerateConfirmationToken db e t))"

fun db_run :: "DatabaseStorage \<Rightarrow> storage_op list \<Rightarrow> nat \<times> DatabaseStorage" where
  "db_run db [] = (0, db)"
| "db_run db (c # cs) =
     (let (ok, db') = db_step db c; (n, db'') = db_run db' cs
      in ((if ok \<and> is_add c then 1 else 0) + n, db''))"

text \<open>
  A call draws a fresh token when the token it is given is not among those in use.
\<close>

fun fresh_token :: "storage_op \<Rightarrow> string list \<Rightarrow> bool" where
  "fresh_token (AddToWaitlist _ _ t _) used = (t \<notin> set used)"
| "fresh_token (RegenerateConfirmationToken _ t) used = (t \<notin> set used)"
| "fresh_token _ used = True"

section \<open>Route layer (server/routes.ts)\<close>

text \<open>
  The exported \<open>storage\<close> is a \<open>DatabaseStorage\<close>. A response is its status code and the
  fields of its JSON body. The schema validator is a library: \<open>parse\<close> is a parameter that
  gives either the messages of the validation error it throws or the validated data. Any
  other exception reaches the handler's \<open>catch\<close> and becomes the 500 response.
\<close>

datatype json = JString string | JNumber nat | JBool bool

record response =
  status :: nat
  body :: "(string \<times> json) list"

definition message :: "nat \<Rightarrow> string \<Rightarrow> response" where
  "message code text = \<lparr>status = code, body = [(''message'', JString text)]\<rparr>"

definition zod_message :: "string list \<Rightarrow> string" where
  "zod_message errors =
     (case errors of
        [] \<Rightarrow> ''Invalid email format''
      | m # _ \<Rightarrow> if m = [] then ''Invalid email format'' else m)"

definition post_waitlist ::
  "('b \<Rightarrow> string list + InsertWaitlistEmail) \<Rightarrow> DatabaseStorage \<Rightarrow> 'b \<Rightarrow> string \<Rightarrow> string \<Rightarrow> nat \<Rightarrow>
     response \<times> DatabaseStorage" where
  "post_waitlist parse db req_body default_id new_token now =
     (case parse req_body of
        Inl errors \<Rightarrow> (message 400 (zod_message errors), db)
      | Inr validatedData \<Rightarrow>
          (case db_getWaitlistEmail db (ins_email validatedData) of
             Some existingEmail \<Rightarrow> (message 409 ''Email already registered for waitlist'', db)
           | None \<Rightarrow>
               (case db_addToWaitlist db validatedData default_id new_token now of
                  (Inl err, db') \<Rightarrow> (message 500 ''Internal server error'', db')
                | (Inr waitlistEmail, db') \<Rightarrow>
                    (\<lparr>status = 201,
                      body = [(''message'', JString ''Successfully added to waitlist''),
                              (''email'', JString (email waitlistEmail))]\<rparr>, db'))))"



definition post_waitlist_resend_confirmation ::
  "('b \<Rightarrow> string list + InsertWaitlistEmail) \<Rightarrow> string \<Rightarrow> DatabaseStorage \<Rightarrow> 'b \<Rightarrow> string \<Rightarrow>
     response \<times> DatabaseStorage" where
  "post_waitlist_resend_confirmation parse node_env db req_body new_token =
     (case parse req_body of
        Inl errors \<Rightarrow> (message 400 (zod_message errors), db)
      | Inr validatedData \<Rightarrow>
          (case db_getWaitlistEmail db (ins_email validatedData) of
             None \<Rightarrow> (message 404 ''Email not found in waitlist'', db)
           | Some waitlistEntry \<Rightarrow>
               if confirmed waitlistEntry then (message 400 ''Email is already confirmed'', db)
               else (case db_regenerateConfirmationToken db (ins_email validatedData) new_token of
                       (Inl err, db') \<Rightarrow> (message 500 ''Internal server error'', db')
                     | (Inr newToken, db') \<Rightarrow>
                         (\<lparr>status = 200,
                           body = (''message'', JString ''Confirmation email resent'') #
                                  (if node_env = ''development''
                                   then [(''token'', JString newToken)] else [])\<rparr>, db'))))"

section \<open>The state of a confirmed entry\<close>

text \<open>
  What the data model asks of the entries of a storage: an entry that is confirmed has its
  \<open>confirmedAt\<close> set and holds no token.
\<close>

definition confirmed_settled :: "WaitlistEmail list \<Rightarrow> bool" where
  "confirmed_settled ws =
     (\<forall>w\<in>set ws. confirmed w \<longrightarrow> confirmedAt w \<noteq> None \<and> confirmationToken w = None)"








section \<open>Example data\<close>

definition confirmed_entry :: WaitlistEmail where
  "confirmed_entry =
     \<lparr>id_w = ''i1'', email = ''a@b.co'', createdAt = 1, confirmed = True,
      confirmationToken = None, confirmedAt = Some 2\<rparr>"

definition pending_entry :: WaitlistEmail where
  "pending_entry =
     \<lparr>id_w = ''i1'', email = ''a@b.co'', createdAt = 1, confirmed = False,
      confirmationToken = Some ''t1'', confirmedAt = None\<rparr>"

definition mem_confirmed :: MemStorage where
  "mem_confirmed = \<lparr>users = [], waitlistEmails = [(''a@b.co'', confirmed_entry)]\<rparr>"

definition mem_pending :: MemStorage where
  "mem_pending = \<lparr>users = [], waitlistEmails = [(''a@b.co'', pending_entry)]\<rparr>"

definition db_confirmed :: DatabaseStorage where
  "db_confirmed = \<lparr>users_table = [], waitlist_emails = [confirmed_entry]\<rparr>"

definition db_pending :: DatabaseStorage where
  "db_pending = \<lparr>users_table = [], waitlist_emails = [pending_entry]\<rparr>"

definition other_entry :: WaitlistEmail where
  "other_entry =
     \<lparr>id_w = ''i9'', email = ''c@d.co'', createdAt = 4, confirmed = False,
      confirmationToken = Some ''t9'', confirmedAt = None\<rparr>"

definition mem_two :: MemStorage where
  "mem_two = \<lparr>users = [], waitlistEmails = [(''a@b.co'', pending_entry), (''c@d.co'', other_entry)]\<rparr>"

definition db_two :: DatabaseStorage where
  "db_two = \<lparr>users_table = [], waitlist_emails = [pending_entry, other_entry]\<rparr>"

definition example_parse :: "string \<Rightarrow> string list + InsertWaitlistEmail" where
  "example_parse req_body =
     (if CHR ''@'' \<in> set req_body then Inr \<lparr>ins_email = req_body\<rparr>
      else Inl [''Please enter a valid email address''])"




lemmas example_defs =
  confirmed_entry_def pending_entry_def mem_confirmed_def mem_pending_def
  db_confirmed_def db_pending_def other_entry_def mem_two_def db_two_def

section \<open>Properties of the \<open>Map\<close> model\<close>

lemma map_get_map_set: "map_get (map_set k v m) k' = (if k' = k then Some v else map_get m k')"
  by (induction m) auto

lemma map_get_None_iff: "map_get m k = None \<longleftrightarrow> k \<notin> fst ` set m"
  by (induction m) (auto split: if_splits)

lemma length_map_set:
  "length (map_set k v m) = (if map_get m k = None then Suc (length m) else length m)"
  by (induction m) (auto split: if_splits)

lemma map_fst_map_set:
  "map fst (map_set k v m) = (if map_get m k = None then map fst m @ [k] else map fst m)"
  by (induction m) (auto split: if_splits)

lemma distinct_map_set: "distinct (map fst m) \<Longrightarrow> distinct (map fst (map_set k v m))"
  by (simp add: map_fst_map_set map_get_None_iff)

lemma map_get_Some_iff: "distinct (map fst m) \<Longrightarrow> map_get m k = Some v \<longleftrightarrow> (k, v) \<in> set m"
  by (induction m) (force split: if_splits)+

lemma set_map_set_subset: "set (map_set k v m) \<subseteq> insert (k, v) (set m)"
  by (induction m) (auto split: if_splits)

lemma set_map_set:
  "distinct (map fst m) \<Longrightarrow> set (map_set k v m) = insert (k, v) {x \<in> set m. fst x \<noteq> k}"
  by (induction m) (force split: if_splits)+

lemma map_set_list_update:
  "distinct (map fst m) \<Longrightarrow> i < length m \<Longrightarrow> fst (m ! i) = k \<Longrightarrow> map_set k v m = m[i := (k, v)]"
proof (induction m arbitrary: i)
  case Nil
  then show ?case by simp
next
  case (Cons x m)
  show ?case
  proof (cases i)
    case 0
    with Cons.prems show ?thesis by (cases x) simp
  next
    case (Suc j)
    with Cons.prems have "fst x \<noteq> k" by force
    with Cons Suc show ?thesis by (cases x) simp
  qed
qed

section \<open>Tokens\<close>

lemma tokens_of_iff: "t \<in> set (tokens_of ws) \<longleftrightarrow> (\<exists>w\<in>set ws. confirmationToken w = Some t)"
  by (induction ws) (auto split: option.splits)

lemma distinct_tokens_of_Cons: "distinct (tokens_of (w # ws)) \<Longrightarrow> distinct (tokens_of ws)"
  by (simp split: option.splits)

lemma token_unique_entries:
  "distinct (tokens_of (map snd es)) \<Longrightarrow> x \<in> set es \<Longrightarrow> y \<in> set es \<Longrightarrow>
   confirmationToken (snd x) = Some t \<Longrightarrow> confirmationToken (snd y) = Some t \<Longrightarrow> x = y"
proof (induction es)
  case Nil
  then show ?case by simp
next
  case (Cons z es)
  show ?case
  proof (cases "confirmationToken (snd z) = Some t")
    case True
    with Cons.prems(1) have "t \<notin> set (tokens_of (map snd es))" by simp
    then have "\<forall>u\<in>set es. confirmationToken (snd u) \<noteq> Some t"
      by (auto simp: tokens_of_iff)
    with Cons.prems show ?thesis by auto
  next
    case False
    with Cons.prems have "x \<in> set es" "y \<in> set es" by auto
    moreover from Cons.prems(1) have "distinct (tokens_of (map snd es))"
      by (simp split: option.splits)
    ultimately show ?thesis using Cons.IH Cons.prems(4,5) by blast
  qed
qed

lemma token_unique_rows:
  "distinct (tokens_of rows) \<Longrightarrow> x \<in> set rows \<Longrightarrow> y \<in> set rows \<Longrightarrow>
   confirmationToken x = Some t \<Longrightarrow> confirmationToken y = Some t \<Longrightarrow> x = y"
proof (induction rows)
  case Nil
  then show ?case by simp
next
  case (Cons z rows)
  show ?case
  proof (cases "confirmationToken z = Some t")
    case True
    with Cons.prems(1) have "t \<notin> set (tokens_of rows)" by simp
    then have "\<forall>u\<in>set rows. confirmationToken u \<noteq> Some t"
      by (auto simp: tokens_of_iff)
    with Cons.prems show ?thesis by auto
  next
    case False
    with Cons.prems have "x \<in> set rows" "y \<in> set rows" by auto
    moreover from Cons.prems(1) have "distinct (tokens_of rows)"
      by (simp split: option.splits)
    ultimately show ?thesis using Cons.IH Cons.prems(4,5) by blast
  qed
qed

section \<open>The loop of \<open>MemStorage.confirmEmail\<close>\<close>

lemma mem_confirmEmail_loop_none:
  "\<forall>x\<in>set es. \<not> (confirmationToken (snd x) = Some t \<and> \<not> confirmed (snd x)) \<Longrightarrow>
   mem_confirmEmail_loop es st t now = (None, st)"
  by (induction es) auto

lemma mem_confirmEmail_loop_first:
  "i < length es \<Longrightarrow> confirmationToken (snd (es ! i)) = Some t \<Longrightarrow> \<not> confirmed (snd (es ! i)) \<Longrightarrow>
   \<forall>j<i. \<not> (confirmationToken (snd (es ! j)) = Some t \<and> \<not> confirmed (snd (es ! j))) \<Longrightarrow>
   mem_confirmEmail_loop es st t now =
     (Some (confirm_entry (snd (es ! i)) now),
      st\<lparr>waitlistEmails := map_set (fst (es ! i)) (confirm_entry (snd (es ! i)) now) (waitlistEmails st)\<rparr>)"
proof (induction es arbitrary: i)
  case Nil
  then show ?case by simp
next
  case (Cons x es)
  obtain e w where x: "x = (e, w)" by (cases x)
  show ?case
  proof (cases i)
    case 0
    with Cons.prems x show ?thesis by (simp add: Let_def)
  next
    case (Suc k)
    from Cons.prems(4) Suc have nx: "\<not> (confirmationToken w = Some t \<and> \<not> confirmed w)"
      using x by force
    have "\<forall>j<k. \<not> (confirmationToken (snd (es ! j)) = Some t \<and> \<not> confirmed (snd (es ! j)))"
      using Cons.prems(4) Suc by force
    with Cons.IH [of k] Cons.prems Suc have
      "mem_confirmEmail_loop es st t now =
         (Some (confirm_entry (snd (es ! k)) now),
          st\<lparr>waitlistEmails := map_set (fst (es ! k)) (confirm_entry (snd (es ! k)) now) (waitlistEmails st)\<rparr>)"
      by simp
    with nx x Suc show ?thesis by auto
  qed
qed

lemma mem_confirmEmail_loop_unique:
  "(e, w) \<in> set es \<Longrightarrow> confirmationToken w = Some t \<Longrightarrow> \<not> confirmed w \<Longrightarrow>
   \<forall>x\<in>set es. confirmationToken (snd x) = Some t \<and> \<not> confirmed (snd x) \<longrightarrow> x = (e, w) \<Longrightarrow>
   mem_confirmEmail_loop es st t now =
     (Some (confirm_entry w now),
      st\<lparr>waitlistEmails := map_set e (confirm_entry w now) (waitlistEmails st)\<rparr>)"
proof (induction es)
  case Nil
  then show ?case by simp
next
  case (Cons x es)
  obtain k v where x: "x = (k, v)" by (cases x)
  show ?case
  proof (cases "confirmationToken v = Some t \<and> \<not> confirmed v")
    case True
    with Cons.prems(4) x have "k = e" "v = w" by auto
    with True x show ?thesis by (simp add: Let_def)
  next
    case False
    with Cons.prems(1,2,3) x have in_es: "(e, w) \<in> set es" by auto
    have uniq: "\<forall>x\<in>set es. confirmationToken (snd x) = Some t \<and> \<not> confirmed (snd x) \<longrightarrow> x = (e, w)"
      using Cons.prems(4) by (simp del: split_paired_All)
    have "mem_confirmEmail_loop es st t now =
        (Some (confirm_entry w now),
         st\<lparr>waitlistEmails := map_set e (confirm_entry w now) (waitlistEmails st)\<rparr>)"
      by (rule Cons.IH [OF in_es Cons.prems(2,3) uniq])
    with False x show ?thesis by auto
  qed
qed

lemma mem_confirmEmail_loop_state:
  "snd (mem_confirmEmail_loop es st t now) = st
   \<or> (\<exists>e w. snd (mem_confirmEmail_loop es st t now) =
        st\<lparr>waitlistEmails := map_set e (confirm_entry w now) (waitlistEmails st)\<rparr>)"
proof (induction es)
  case Nil
  then show ?case by simp
next
  case (Cons x es)
  obtain k v where x: "x = (k, v)" by (cases x)
  show ?case
  proof (cases "confirmationToken v = Some t \<and> \<not> confirmed v")
    case True
    with x have "snd (mem_confirmEmail_loop (x # es) st t now) =
        st\<lparr>waitlistEmails := map_set k (confirm_entry v now) (waitlistEmails st)\<rparr>"
      by (simp add: Let_def)
    then show ?thesis by blast
  next
    case False
    with x have "mem_confirmEmail_loop (x # es) st t now = mem_confirmEmail_loop es st t now"
      by auto
    with Cons.IH show ?thesis by simp
  qed
qed

lemma mem_confirmEmail_loop_key:
  "snd (mem_confirmEmail_loop es st t now) = st
   \<or> (\<exists>e w. (e, w) \<in> set es \<and> snd (mem_confirmEmail_loop es st t now) =
        st\<lparr>waitlistEmails := map_set e (confirm_entry w now) (waitlistEmails st)\<rparr>)"
proof (induction es)
  case Nil
  then show ?case by simp
next
  case (Cons x es)
  obtain k v where x: "x = (k, v)" by (cases x)
  show ?case
  proof (cases "confirmationToken v = Some t \<and> \<not> confirmed v")
    case True
    with x have "(k, v) \<in> set (x # es) \<and> snd (mem_confirmEmail_loop (x # es) st t now) =
        st\<lparr>waitlistEmails := map_set k (confirm_entry v now) (waitlistEmails st)\<rparr>"
      by (simp add: Let_def)
    then show ?thesis by blast
  next
    case False
    with x have "mem_confirmEmail_loop (x # es) st t now = mem_confirmEmail_loop es st t now"
      by auto
    with Cons.IH show ?thesis by auto
  qed
qed

section \<open>What holds of every storage\<close>

text \<open>
  The keys of the map stay pairwise different; so do the tokens, as long as every call that
  draws a token draws a fresh one; and a table keeps satisfying its constraints. The
  storages are created satisfying all three.
\<close>

lemma tokens_of_map_set_subset:
  "set (tokens_of (map snd (map_set k v m))) \<subseteq>
     set (tokens_of [v]) \<union> set (tokens_of (map snd m))"
  by (induction m) (auto split: option.splits if_splits)

lemma distinct_tokens_of_map_set:
  "distinct (tokens_of (map snd m)) \<Longrightarrow>
   \<forall>t. confirmationToken v = Some t \<longrightarrow> t \<notin> set (tokens_of (map snd m)) \<Longrightarrow>
   distinct (tokens_of (map snd (map_set k v m)))"
proof (induction m)
  case Nil
  then show ?case by (simp split: option.splits)
next
  case (Cons x m)
  obtain k' v' where x: "x = (k', v')" by (cases x)
  from Cons.prems(1) have d: "distinct (tokens_of (map snd m))"
    by (simp split: option.splits)
  from Cons.prems(2) have f: "\<forall>t. confirmationToken v = Some t \<longrightarrow> t \<notin> set (tokens_of (map snd m))"
    by (auto split: option.splits)
  show ?case
  proof (cases "k' = k")
    case True
    with x d f show ?thesis by (auto split: option.splits)
  next
    case False
    note ih = Cons.IH [OF d f]
    show ?thesis
    proof (cases "confirmationToken v'")
      case None
      with False x ih show ?thesis by simp
    next
      case (Some u)
      with Cons.prems x have "u \<notin> set (tokens_of (map snd m))" "confirmationToken v \<noteq> Some u"
        by auto
      with tokens_of_map_set_subset [of k v m]
      have "u \<notin> set (tokens_of (map snd (map_set k v m)))"
        by (auto split: option.splits)
      with False x ih Some show ?thesis by simp
    qed
  qed
qed

lemma mem_step_keys:
  assumes "distinct (map fst (waitlistEmails st))"
  shows "distinct (map fst (waitlistEmails (snd (mem_step st c))))"
proof (cases c)
  case (CreateUser ins i)
  with assms show ?thesis by (simp add: mem_createUser_def Let_def)
next
  case (AddToWaitlist ins i t now)
  with assms show ?thesis by (simp add: mem_addToWaitlist_def Let_def distinct_map_set)
next
  case (ConfirmEmail t now)
  with assms show ?thesis
    using mem_confirmEmail_loop_state [of "waitlistEmails st" st t now]
    by (auto simp: mem_confirmEmail_def distinct_map_set)
next
  case (RegenerateConfirmationToken e t)
  with assms show ?thesis
    by (auto simp: mem_regenerateConfirmationToken_def Let_def distinct_map_set split: option.splits)
qed

lemma mem_step_tokens:
  assumes "distinct (tokens_of (map snd (waitlistEmails st)))"
    and "fresh_token c (tokens_of (map snd (waitlistEmails st)))"
  shows "distinct (tokens_of (map snd (waitlistEmails (snd (mem_step st c)))))"
proof (cases c)
  case (CreateUser ins i)
  with assms show ?thesis by (simp add: mem_createUser_def Let_def)
next
  case (AddToWaitlist ins i t now)
  with assms show ?thesis
    by (simp add: mem_addToWaitlist_def Let_def distinct_tokens_of_map_set)
next
  case (ConfirmEmail t now)
  have "distinct (tokens_of (map snd (map_set e (confirm_entry w now) (waitlistEmails st))))" for e w
    using assms(1) by (rule distinct_tokens_of_map_set) (simp add: confirm_entry_def)
  with ConfirmEmail assms(1) show ?thesis
    using mem_confirmEmail_loop_state [of "waitlistEmails st" st t now]
    by (auto simp: mem_confirmEmail_def)
next
  case (RegenerateConfirmationToken e t)
  have "distinct (tokens_of (map snd (map_set e (w\<lparr>confirmationToken := Some t\<rparr>) (waitlistEmails st))))" for w
    using assms(1) by (rule distinct_tokens_of_map_set) (use assms(2) RegenerateConfirmationToken in simp)
  with RegenerateConfirmationToken assms(1) show ?thesis
    by (auto simp: mem_regenerateConfirmationToken_def Let_def split: option.splits)
qed



lemma new_storages_ok:
  "distinct (map fst (waitlistEmails mem_new))"
  "distinct (tokens_of (map snd (waitlistEmails mem_new)))"
  "unique_ok (waitlist_emails db_new)"
  by (simp_all add: mem_new_def db_new_def unique_ok_def)

section \<open>Signing up twice with one e-mail address\<close>

lemma db_addToWaitlist_duplicate:
  assumes "w \<in> set (waitlist_emails db)" and "email w = ins_email ins"
  shows "db_addToWaitlist db ins default_id new_token now = (Inl UniqueViolation, db)"
proof -
  have "ins_email ins \<in> set (map email (waitlist_emails db))"
    using assms by force
  then show ?thesis
    by (simp add: db_addToWaitlist_def insert_returning_def unique_ok_def)
qed

text \<open>
  Claim C1: when a waitlist entry with e-mail address \<open>e\<close> exists, \<open>addToWaitlist\<close> with \<open>e\<close>
  fails instead of creating or replacing an entry, in both storage implementations.

  \<open>DatabaseStorage\<close> does so (lemma \<open>db_addToWaitlist_duplicate\<close>). \<open>MemStorage\<close> does
  not: on the storage that holds a confirmed entry for \<open>a@b.co\<close>, the call returns a new
  entry and the map holds it in place of the confirmed one.
\<close>

theorem mem_addToWaitlist_replaces_existing:
  "mem_addToWaitlist mem_confirmed \<lparr>ins_email = ''a@b.co''\<rparr> ''i2'' ''t2'' 3 =
     (\<lparr>id_w = ''i2'', email = ''a@b.co'', createdAt = 3, confirmed = False,
       confirmationToken = Some ''t2'', confirmedAt = None\<rparr>,
      \<lparr>users = [], waitlistEmails =
         [(''a@b.co'', \<lparr>id_w = ''i2'', email = ''a@b.co'', createdAt = 3, confirmed = False,
                         confirmationToken = Some ''t2'', confirmedAt = None\<rparr>)]\<rparr>)"
  by (simp add: mem_addToWaitlist_def example_defs Let_def)

section \<open>Confirming an e-mail address\<close>

lemma mem_confirmEmail_match:
  assumes "distinct (tokens_of (map snd (waitlistEmails st)))"
    and "(e, w) \<in> set (waitlistEmails st)"
    and "confirmationToken w = Some t" and "\<not> confirmed w"
  shows "mem_confirmEmail st t now =
     (Some (confirm_entry w now),
      st\<lparr>waitlistEmails := map_set e (confirm_entry w now) (waitlistEmails st)\<rparr>)"
proof -
  have "\<forall>x\<in>set (waitlistEmails st).
          confirmationToken (snd x) = Some t \<and> \<not> confirmed (snd x) \<longrightarrow> x = (e, w)"
    using token_unique_entries [OF assms(1) _ assms(2)] assms(3) by auto
  then show ?thesis
    unfolding mem_confirmEmail_def
    by (rule mem_confirmEmail_loop_unique [OF assms(2,3,4)])
qed

lemma mem_confirmEmail_no_match:
  assumes "\<forall>x\<in>set (waitlistEmails st). \<not> (confirmationToken (snd x) = Some t \<and> \<not> confirmed (snd x))"
  shows "mem_confirmEmail st t now = (None, st)"
  unfolding mem_confirmEmail_def using assms by (rule mem_confirmEmail_loop_none)

lemma mem_confirmed_no_match:
  assumes "distinct (map fst (waitlistEmails st))"
    and "distinct (tokens_of (map snd (waitlistEmails st)))"
    and "(e, w) \<in> set (waitlistEmails st)"
    and "confirmationToken w = Some t"
    and "x \<in> set (map_set e (confirm_entry w now) (waitlistEmails st))"
  shows "\<not> (confirmationToken (snd x) = Some t \<and> \<not> confirmed (snd x))"
proof
  assume m: "confirmationToken (snd x) = Some t \<and> \<not> confirmed (snd x)"
  from assms(5) have "x = (e, confirm_entry w now) \<or> (x \<in> set (waitlistEmails st) \<and> fst x \<noteq> e)"
    by (simp add: set_map_set [OF assms(1)])
  then show False
  proof
    assume "x = (e, confirm_entry w now)"
    with m show False by (simp add: confirm_entry_def)
  next
    assume x: "x \<in> set (waitlistEmails st) \<and> fst x \<noteq> e"
    with m have "x = (e, w)"
      using token_unique_entries [OF assms(2) _ assms(3), of x t] assms(4) by simp
    with x show False by simp
  qed
qed

lemma mem_confirmEmail_again:
  assumes "distinct (map fst (waitlistEmails st))"
    and "distinct (tokens_of (map snd (waitlistEmails st)))"
    and "(e, w) \<in> set (waitlistEmails st)"
    and "confirmationToken w = Some t"
  shows "mem_confirmEmail (st\<lparr>waitlistEmails := map_set e (confirm_entry w now) (waitlistEmails st)\<rparr>) t now' =
     (None, st\<lparr>waitlistEmails := map_set e (confirm_entry w now) (waitlistEmails st)\<rparr>)"
  by (rule mem_confirmEmail_no_match) (use mem_confirmed_no_match [OF assms] in simp)


lemma filter_token_unique:
  "distinct (tokens_of rows) \<Longrightarrow> w \<in> set rows \<Longrightarrow> confirmationToken w = Some t \<Longrightarrow> \<not> confirmed w \<Longrightarrow>
   filter (\<lambda>r. confirmationToken r = Some t \<and> \<not> confirmed r) rows = [w]"
proof (induction rows)
  case Nil
  then show ?case by simp
next
  case (Cons z rows)
  show ?case
  proof (cases "confirmationToken z = Some t")
    case True
    with Cons.prems(1) have "t \<notin> set (tokens_of rows)" by simp
    then have none: "\<forall>u\<in>set rows. confirmationToken u \<noteq> Some t"
      by (auto simp: tokens_of_iff)
    with Cons.prems(2,3) have "w = z" by auto
    moreover from none have
      "filter (\<lambda>r. confirmationToken r = Some t \<and> \<not> confirmed r) rows = []"
      by (simp add: filter_empty_conv)
    ultimately show ?thesis using Cons.prems(3,4) by simp
  next
    case False
    with Cons.prems(2,3) have "w \<in> set rows" by auto
    moreover from Cons.prems(1) have "distinct (tokens_of rows)"
      by (rule distinct_tokens_of_Cons)
    ultimately have
      "filter (\<lambda>r. confirmationToken r = Some t \<and> \<not> confirmed r) rows = [w]"
      using Cons.IH Cons.prems(3,4) by blast
    with False show ?thesis by simp
  qed
qed

lemma tokens_of_confirm_subset:
  "set (tokens_of (map (\<lambda>r. if c r then confirm_entry r now else r) rows)) \<subseteq> set (tokens_of rows)"
  by (induction rows) (auto simp: confirm_entry_def split: option.splits)

lemma distinct_tokens_of_confirm:
  "distinct (tokens_of rows) \<Longrightarrow>
   distinct (tokens_of (map (\<lambda>r. if c r then confirm_entry r now else r) rows))"
proof (induction rows)
  case Nil
  then show ?case by simp
next
  case (Cons z rows)
  from Cons.prems have d: "distinct (tokens_of rows)" by (rule distinct_tokens_of_Cons)
  note ih = Cons.IH [OF d]
  show ?case
  proof (cases "confirmationToken z")
    case None
    with ih show ?thesis by (simp add: confirm_entry_def)
  next
    case (Some u)
    with Cons.prems have "u \<notin> set (tokens_of rows)" by simp
    with tokens_of_confirm_subset [of c now rows]
    have "u \<notin> set (tokens_of (map (\<lambda>r. if c r then confirm_entry r now else r) rows))"
      by blast
    with ih Some show ?thesis by (simp add: confirm_entry_def)
  qed
qed

lemma unique_ok_confirm:
  assumes "unique_ok rows"
  shows "unique_ok (map (\<lambda>r. if c r then confirm_entry r now else r) rows)"
proof -
  have a: "id_w \<circ> (\<lambda>r. if c r then confirm_entry r now else r) = id_w"
    by (auto simp: confirm_entry_def fun_eq_iff)
  have b: "email \<circ> (\<lambda>r. if c r then confirm_entry r now else r) = email"
    by (auto simp: confirm_entry_def fun_eq_iff)
  show ?thesis
    using assms distinct_tokens_of_confirm [of rows c now] unfolding unique_ok_def
    by (simp add: a b)
qed

lemma no_match_after_confirm:
  "filter (\<lambda>r. confirmationToken r = Some t \<and> \<not> confirmed r)
     (map (\<lambda>r. if confirmationToken r = Some t \<and> \<not> confirmed r then confirm_entry r now else r) rows) = []"
  by (induction rows) (auto simp: confirm_entry_def)

lemma db_confirmEmail_no_match:
  assumes "filter (\<lambda>r. confirmationToken r = Some t \<and> \<not> confirmed r) (waitlist_emails db) = []"
  shows "db_confirmEmail db t now = (Inr None, db)"
  using assms by (simp add: db_confirmEmail_def update_returning_def first_def)

lemma db_confirmEmail_match:
  assumes "unique_ok (waitlist_emails db)"
    and "w \<in> set (waitlist_emails db)"
    and "confirmationToken w = Some t" and "\<not> confirmed w"
  shows "db_confirmEmail db t now =
     (Inr (Some (confirm_entry w now)),
      db\<lparr>waitlist_emails :=
           map (\<lambda>r. if confirmationToken r = Some t \<and> \<not> confirmed r
                     then confirm_entry r now else r) (waitlist_emails db)\<rparr>)"
proof -
  from assms(1) have "distinct (tokens_of (waitlist_emails db))"
    by (simp add: unique_ok_def)
  then have f: "filter (\<lambda>r. confirmationToken r = Some t \<and> \<not> confirmed r) (waitlist_emails db) = [w]"
    using assms(2,3,4) by (rule filter_token_unique)
  have u: "unique_ok (map (\<lambda>r. if confirmationToken r = Some t \<and> \<not> confirmed r
                     then confirm_entry r now else r) (waitlist_emails db))"
    using assms(1) by (rule unique_ok_confirm)
  show ?thesis
    by (simp add: db_confirmEmail_def update_returning_def f u first_def Let_def)
qed

lemma db_confirmEmail_again:
  "db_confirmEmail (db\<lparr>waitlist_emails :=
           map (\<lambda>r. if confirmationToken r = Some t \<and> \<not> confirmed r
                     then confirm_entry r now else r) (waitlist_emails db)\<rparr>) t now' =
   (Inr None, db\<lparr>waitlist_emails :=
           map (\<lambda>r. if confirmationToken r = Some t \<and> \<not> confirmed r
                     then confirm_entry r now else r) (waitlist_emails db)\<rparr>)"
  by (rule db_confirmEmail_no_match) (simp add: no_match_after_confirm)

lemma filter_email_unique:
  "distinct (map email rows) \<Longrightarrow> w \<in> set rows \<Longrightarrow> filter (\<lambda>r. email r = email w) rows = [w]"
proof (induction rows)
  case Nil
  then show ?case by simp
next
  case (Cons z rows)
  show ?case
  proof (cases "email z = email w")
    case True
    from Cons.prems(1) have "email z \<notin> email ` set rows" by simp
    with True have "\<forall>u\<in>set rows. email u \<noteq> email w" by (auto simp: image_iff)
    then have "w \<notin> set rows" "filter (\<lambda>r. email r = email w) rows = []"
      by (auto simp: filter_empty_conv)
    with Cons.prems True show ?thesis by simp
  next
    case False
    with Cons show ?thesis by auto
  qed
qed

lemma db_getWaitlistEmail_member:
  "distinct (map email (waitlist_emails db)) \<Longrightarrow> w \<in> set (waitlist_emails db) \<Longrightarrow>
   db_getWaitlistEmail db (email w) = Some w"
  by (simp add: db_getWaitlistEmail_def filter_email_unique first_def)

lemma db_getWaitlistEmail_Some:
  "db_getWaitlistEmail db e = Some w \<Longrightarrow> w \<in> set (waitlist_emails db) \<and> email w = e"
proof -
  assume a: "db_getWaitlistEmail db e = Some w"
  then obtain rest where "filter (\<lambda>r. email r = e) (waitlist_emails db) = w # rest"
    by (auto simp: db_getWaitlistEmail_def first_def split: list.splits)
  then have "w \<in> set (filter (\<lambda>r. email r = e) (waitlist_emails db))" by simp
  then show ?thesis by simp
qed

lemma db_getWaitlistEmail_None:
  "db_getWaitlistEmail db e = None \<longleftrightarrow> (\<forall>w\<in>set (waitlist_emails db). email w \<noteq> e)"
proof -
  have "db_getWaitlistEmail db e = None \<longleftrightarrow> filter (\<lambda>r. email r = e) (waitlist_emails db) = []"
    by (simp add: db_getWaitlistEmail_def first_def split: list.splits)
  then show ?thesis by (simp add: filter_empty_conv)
qed


lemma db_getWaitlistEmail_after_confirm:
  assumes "unique_ok (waitlist_emails db)"
    and "w \<in> set (waitlist_emails db)"
    and "confirmationToken w = Some t" and "\<not> confirmed w"
  shows "db_getWaitlistEmail
           (db\<lparr>waitlist_emails :=
                 map (\<lambda>r. if confirmationToken r = Some t \<and> \<not> confirmed r
                           then confirm_entry r now else r) (waitlist_emails db)\<rparr>) (email w) =
         Some (confirm_entry w now)"
proof -
  let ?f = "\<lambda>r. if confirmationToken r = Some t \<and> \<not> confirmed r then confirm_entry r now else r"
  let ?db = "db\<lparr>waitlist_emails := map ?f (waitlist_emails db)\<rparr>"
  have "unique_ok (map ?f (waitlist_emails db))"
    using assms(1) by (rule unique_ok_confirm)
  then have d: "distinct (map email (waitlist_emails ?db))"
    by (simp add: unique_ok_def)
  have "?f w \<in> set (map ?f (waitlist_emails db))"
    using assms(2) by (simp only: set_map) (rule imageI)
  then have m: "confirm_entry w now \<in> set (waitlist_emails ?db)"
    using assms(3,4) by simp
  have "email (confirm_entry w now) = email w"
    by (simp add: confirm_entry_def)
  with db_getWaitlistEmail_member [OF d m] show ?thesis by simp
qed

text \<open>
  Claim C2: for every token \<open>t\<close>, if a waitlist entry has \<open>confirmationToken = t\<close> and is not
  confirmed, \<open>confirmEmail(t)\<close> returns that entry with \<open>confirmed = true\<close>, \<open>confirmedAt\<close>
  set and the token cleared, and the storage holds the updated entry; a second
  \<open>confirmEmail(t)\<close> then returns absent and changes nothing. If no unconfirmed entry has
  token \<open>t\<close>, \<open>confirmEmail(t)\<close> returns absent and leaves the storage as it is.

  Stated for both implementations, on storages whose tokens are pairwise different (the
  values of \<open>randomUUID()\<close>; the \<open>unique\<close> constraint of the table) and, for the map, whose
  keys are.
\<close>

theorem confirmEmail_confirms_once:
  assumes "distinct (map fst (waitlistEmails st))"
    and "distinct (tokens_of (map snd (waitlistEmails st)))"
    and "unique_ok (waitlist_emails db)"
  shows
    "((e, w) \<in> set (waitlistEmails st) \<and> confirmationToken w = Some t \<and> \<not> confirmed w \<longrightarrow>
        fst (mem_confirmEmail st t now) =
          Some (w\<lparr>confirmed := True, confirmedAt := Some now, confirmationToken := None\<rparr>)
      \<and> mem_getWaitlistEmail (snd (mem_confirmEmail st t now)) e =
          Some (w\<lparr>confirmed := True, confirmedAt := Some now, confirmationToken := None\<rparr>)
      \<and> mem_confirmEmail (snd (mem_confirmEmail st t now)) t now' =
          (None, snd (mem_confirmEmail st t now)))
   \<and> ((\<forall>x\<in>set (waitlistEmails st). \<not> (confirmationToken (snd x) = Some t \<and> \<not> confirmed (snd x))) \<longrightarrow>
        mem_confirmEmail st t now = (None, st))
   \<and> (r \<in> set (waitlist_emails db) \<and> confirmationToken r = Some t \<and> \<not> confirmed r \<longrightarrow>
        fst (db_confirmEmail db t now) =
          Inr (Some (r\<lparr>confirmed := True, confirmedAt := Some now, confirmationToken := None\<rparr>))
      \<and> db_getWaitlistEmail (snd (db_confirmEmail db t now)) (email r) =
          Some (r\<lparr>confirmed := True, confirmedAt := Some now, confirmationToken := None\<rparr>)
      \<and> db_confirmEmail (snd (db_confirmEmail db t now)) t now' =
          (Inr None, snd (db_confirmEmail db t now)))
   \<and> ((\<forall>x\<in>set (waitlist_emails db). \<not> (confirmationToken x = Some t \<and> \<not> confirmed x)) \<longrightarrow>
        db_confirmEmail db t now = (Inr None, db))"
proof (intro conjI impI)
  assume a: "(e, w) \<in> set (waitlistEmails st) \<and> confirmationToken w = Some t \<and> \<not> confirmed w"
  then have m: "mem_confirmEmail st t now =
     (Some (confirm_entry w now),
      st\<lparr>waitlistEmails := map_set e (confirm_entry w now) (waitlistEmails st)\<rparr>)"
    using mem_confirmEmail_match [OF assms(2)] by blast
  then show "fst (mem_confirmEmail st t now) =
      Some (w\<lparr>confirmed := True, confirmedAt := Some now, confirmationToken := None\<rparr>)"
    by (simp add: confirm_entry_def)
  from m show "mem_getWaitlistEmail (snd (mem_confirmEmail st t now)) e =
      Some (w\<lparr>confirmed := True, confirmedAt := Some now, confirmationToken := None\<rparr>)"
    by (simp add: mem_getWaitlistEmail_def map_get_map_set confirm_entry_def)
  from a have "mem_confirmEmail (st\<lparr>waitlistEmails := map_set e (confirm_entry w now) (waitlistEmails st)\<rparr>) t now' =
     (None, st\<lparr>waitlistEmails := map_set e (confirm_entry w now) (waitlistEmails st)\<rparr>)"
    using mem_confirmEmail_again [OF assms(1,2)] by blast
  with m show "mem_confirmEmail (snd (mem_confirmEmail st t now)) t now' =
      (None, snd (mem_confirmEmail st t now))"
    by simp
next
  assume "\<forall>x\<in>set (waitlistEmails st). \<not> (confirmationToken (snd x) = Some t \<and> \<not> confirmed (snd x))"
  then show "mem_confirmEmail st t now = (None, st)"
    by (rule mem_confirmEmail_no_match)
next
  assume a: "r \<in> set (waitlist_emails db) \<and> confirmationToken r = Some t \<and> \<not> confirmed r"
  then have m: "db_confirmEmail db t now =
     (Inr (Some (confirm_entry r now)),
      db\<lparr>waitlist_emails :=
           map (\<lambda>r. if confirmationToken r = Some t \<and> \<not> confirmed r
                     then confirm_entry r now else r) (waitlist_emails db)\<rparr>)"
    using db_confirmEmail_match [OF assms(3)] by blast
  then show "fst (db_confirmEmail db t now) =
      Inr (Some (r\<lparr>confirmed := True, confirmedAt := Some now, confirmationToken := None\<rparr>))"
    by (simp add: confirm_entry_def)
  from a have "db_getWaitlistEmail
           (db\<lparr>waitlist_emails :=
                 map (\<lambda>r. if confirmationToken r = Some t \<and> \<not> confirmed r
                           then confirm_entry r now else r) (waitlist_emails db)\<rparr>) (email r) =
         Some (confirm_entry r now)"
    using db_getWaitlistEmail_after_confirm [OF assms(3)] by blast
  with m show "db_getWaitlistEmail (snd (db_confirmEmail db t now)) (email r) =
      Some (r\<lparr>confirmed := True, confirmedAt := Some now, confirmationToken := None\<rparr>)"
    by (simp add: confirm_entry_def)
  from m show "db_confirmEmail (snd (db_confirmEmail db t now)) t now' =
      (Inr None, snd (db_confirmEmail db t now))"
    by (simp add: db_confirmEmail_again)
next
  assume "\<forall>x\<in>set (waitlist_emails db). \<not> (confirmationToken x = Some t \<and> \<not> confirmed x)"
  then have "filter (\<lambda>r. confirmationToken r = Some t \<and> \<not> confirmed r) (waitlist_emails db) = []"
    by (simp add: filter_empty_conv)
  then show "db_confirmEmail db t now = (Inr None, db)"
    by (rule db_confirmEmail_no_match)
qed

theorem confirmEmail_confirms_once_witness:
  "distinct (map fst (waitlistEmails mem_pending))
   \<and> distinct (tokens_of (map snd (waitlistEmails mem_pending)))
   \<and> unique_ok (waitlist_emails db_pending)
   \<and> (''a@b.co'', pending_entry) \<in> set (waitlistEmails mem_pending)
   \<and> pending_entry \<in> set (waitlist_emails db_pending)
   \<and> confirmationToken pending_entry = Some ''t1'' \<and> \<not> confirmed pending_entry
   \<and> fst (mem_confirmEmail mem_pending ''t1'' 5) =
        Some (pending_entry\<lparr>confirmed := True, confirmedAt := Some 5, confirmationToken := None\<rparr>)
   \<and> mem_confirmEmail (snd (mem_confirmEmail mem_pending ''t1'' 5)) ''t1'' 6 =
        (None, snd (mem_confirmEmail mem_pending ''t1'' 5))
   \<and> fst (db_confirmEmail db_pending ''t1'' 5) =
        Inr (Some (pending_entry\<lparr>confirmed := True, confirmedAt := Some 5, confirmationToken := None\<rparr>))
   \<and> db_confirmEmail (snd (db_confirmEmail db_pending ''t1'' 5)) ''t1'' 6 =
        (Inr None, snd (db_confirmEmail db_pending ''t1'' 5))
   \<and> mem_confirmEmail mem_pending ''zz'' 5 = (None, mem_pending)
   \<and> db_confirmEmail db_pending ''zz'' 5 = (Inr None, db_pending)"
proof -
  have h: "distinct (map fst (waitlistEmails mem_pending))"
    "distinct (tokens_of (map snd (waitlistEmails mem_pending)))"
    "unique_ok (waitlist_emails db_pending)"
    by (simp_all add: example_defs unique_ok_def)
  have g: "(''a@b.co'', pending_entry) \<in> set (waitlistEmails mem_pending)"
    "pending_entry \<in> set (waitlist_emails db_pending)"
    "confirmationToken pending_entry = Some ''t1''" "\<not> confirmed pending_entry"
    by (simp_all add: example_defs)
  have n: "\<forall>x\<in>set (waitlistEmails mem_pending). \<not> (confirmationToken (snd x) = Some ''zz'' \<and> \<not> confirmed (snd x))"
    "\<forall>x\<in>set (waitlist_emails db_pending). \<not> (confirmationToken x = Some ''zz'' \<and> \<not> confirmed x)"
    by (simp_all add: example_defs)
  show ?thesis
    using h g n
      confirmEmail_confirms_once [OF h, of "''a@b.co''" pending_entry "''t1''" 5 6 pending_entry]
      confirmEmail_confirms_once [OF h, of "''a@b.co''" pending_entry "''zz''" 5 6 pending_entry]
    by blast
qed

section \<open>Regenerating a token\<close>

lemma mem_regenerate_found:
  "map_get (waitlistEmails st) e = Some w \<Longrightarrow>
   mem_regenerateConfirmationToken st e newToken =
     (Inr newToken,
      st\<lparr>waitlistEmails := map_set e (w\<lparr>confirmationToken := Some newToken\<rparr>) (waitlistEmails st)\<rparr>)"
  by (simp add: mem_regenerateConfirmationToken_def)

lemma mem_regenerate_not_found:
  "map_get (waitlistEmails st) e = None \<Longrightarrow>
   mem_regenerateConfirmationToken st e newToken = (Inl (Error ''Email not found''), st)"
  by (simp add: mem_regenerateConfirmationToken_def)

lemma tokens_of_regenerate_subset:
  "set (tokens_of (map (\<lambda>r. if email r = e then r\<lparr>confirmationToken := Some b\<rparr> else r) rows))
     \<subseteq> insert b (set (tokens_of rows))"
  by (induction rows) (auto split: option.splits)

lemma distinct_tokens_of_regenerate:
  "distinct (map email rows) \<Longrightarrow> distinct (tokens_of rows) \<Longrightarrow> b \<notin> set (tokens_of rows) \<Longrightarrow>
   distinct (tokens_of (map (\<lambda>r. if email r = e then r\<lparr>confirmationToken := Some b\<rparr> else r) rows))"
proof (induction rows)
  case Nil
  then show ?case by simp
next
  case (Cons z rows)
  let ?f = "\<lambda>r. if email r = e then r\<lparr>confirmationToken := Some b\<rparr> else r"
  from Cons.prems(2) have d: "distinct (tokens_of rows)" by (rule distinct_tokens_of_Cons)
  from Cons.prems(3) have nb: "b \<notin> set (tokens_of rows)" by (simp split: option.splits)
  show ?case
  proof (cases "email z = e")
    case True
    with Cons.prems(1) have "\<forall>u\<in>set rows. email u \<noteq> e" by (auto simp: image_iff)
    then have "map ?f rows = rows" by (simp add: map_idI)
    with True d nb show ?thesis by simp
  next
    case False
    from Cons.prems(1) have "distinct (map email rows)" by simp
    note ih = Cons.IH [OF this d nb]
    show ?thesis
    proof (cases "confirmationToken z")
      case None
      with False ih show ?thesis by simp
    next
      case (Some u)
      with Cons.prems(2,3) have "u \<notin> set (tokens_of rows)" "u \<noteq> b" by auto
      with tokens_of_regenerate_subset [of e b rows] have "u \<notin> set (tokens_of (map ?f rows))"
        by blast
      with False Some ih show ?thesis by simp
    qed
  qed
qed

lemma unique_ok_regenerate:
  assumes "unique_ok rows" and "b \<notin> set (tokens_of rows)"
  shows "unique_ok (map (\<lambda>r. if email r = e then r\<lparr>confirmationToken := Some b\<rparr> else r) rows)"
proof -
  have a: "id_w \<circ> (\<lambda>r. if email r = e then r\<lparr>confirmationToken := Some b\<rparr> else r) = id_w"
    by (auto simp: fun_eq_iff)
  have c: "email \<circ> (\<lambda>r. if email r = e then r\<lparr>confirmationToken := Some b\<rparr> else r) = email"
    by (auto simp: fun_eq_iff)
  show ?thesis
    using assms distinct_tokens_of_regenerate [of rows b e] unfolding unique_ok_def
    by (simp add: a c)
qed

lemma db_regenerate_found:
  assumes "unique_ok (waitlist_emails db)" and "b \<notin> set (tokens_of (waitlist_emails db))"
    and "w \<in> set (waitlist_emails db)" and "email w = e"
  shows "db_regenerateConfirmationToken db e b =
     (Inr b, db\<lparr>waitlist_emails :=
                  map (\<lambda>r. if email r = e then r\<lparr>confirmationToken := Some b\<rparr> else r)
                    (waitlist_emails db)\<rparr>)"
proof -
  from assms(1) have "distinct (map email (waitlist_emails db))" by (simp add: unique_ok_def)
  then have f: "filter (\<lambda>r. email r = e) (waitlist_emails db) = [w]"
    using filter_email_unique [of "waitlist_emails db" w] assms(3,4) by simp
  have u: "unique_ok (map (\<lambda>r. if email r = e then r\<lparr>confirmationToken := Some b\<rparr> else r)
                    (waitlist_emails db))"
    using assms(1,2) by (rule unique_ok_regenerate)
  show ?thesis
    by (simp add: db_regenerateConfirmationToken_def update_returning_def f u first_def Let_def)
qed

lemma db_regenerate_not_found:
  assumes "\<forall>w\<in>set (waitlist_emails db). email w \<noteq> e"
  shows "db_regenerateConfirmationToken db e b = (Inl (Error ''Email not found''), db)"
proof -
  from assms have "filter (\<lambda>r. email r = e) (waitlist_emails db) = []"
    by (simp add: filter_empty_conv)
  then show ?thesis
    by (simp add: db_regenerateConfirmationToken_def update_returning_def first_def)
qed

lemma db_getWaitlistEmail_after_regenerate:
  assumes "unique_ok (waitlist_emails db)" and "b \<notin> set (tokens_of (waitlist_emails db))"
    and "w \<in> set (waitlist_emails db)" and "email w = e"
  shows "db_getWaitlistEmail
           (db\<lparr>waitlist_emails :=
                 map (\<lambda>r. if email r = e then r\<lparr>confirmationToken := Some b\<rparr> else r)
                   (waitlist_emails db)\<rparr>) e =
         Some (w\<lparr>confirmationToken := Some b\<rparr>)"
proof -
  let ?f = "\<lambda>r. if email r = e then r\<lparr>confirmationToken := Some b\<rparr> else r"
  let ?db = "db\<lparr>waitlist_emails := map ?f (waitlist_emails db)\<rparr>"
  have "unique_ok (map ?f (waitlist_emails db))"
    using assms(1,2) by (rule unique_ok_regenerate)
  then have d: "distinct (map email (waitlist_emails ?db))"
    by (simp add: unique_ok_def)
  have "?f w \<in> set (map ?f (waitlist_emails db))"
    using assms(3) by (simp only: set_map) (rule imageI)
  then have m: "w\<lparr>confirmationToken := Some b\<rparr> \<in> set (waitlist_emails ?db)"
    using assms(4) by simp
  have "email (w\<lparr>confirmationToken := Some b\<rparr>) = e"
    using assms(4) by simp
  with db_getWaitlistEmail_member [OF d m] show ?thesis by simp
qed

text \<open>
  Claim C9: if a waitlist entry with e-mail address \<open>e\<close> exists,
  \<open>regenerateConfirmationToken(e)\<close> stores the newly generated token on that entry in place
  of the one it had and returns exactly that token; if no entry with \<open>e\<close> exists, it fails
  with the error \<open>Email not found\<close> and the storage is unchanged.

  Stated for both implementations. The new token is the value of \<open>randomUUID()\<close>; for the
  table it is one that no row holds, so that the \<open>unique\<close> constraint lets the UPDATE pass.
\<close>

theorem regenerateConfirmationToken_spec:
  assumes "unique_ok (waitlist_emails db)"
    and "newToken \<notin> set (tokens_of (waitlist_emails db))"
  shows
    "(mem_getWaitlistEmail st e = Some w \<longrightarrow>
        fst (mem_regenerateConfirmationToken st e newToken) = Inr newToken
      \<and> mem_getWaitlistEmail (snd (mem_regenerateConfirmationToken st e newToken)) e =
          Some (w\<lparr>confirmationToken := Some newToken\<rparr>))
   \<and> (mem_getWaitlistEmail st e = None \<longrightarrow>
        mem_regenerateConfirmationToken st e newToken = (Inl (Error ''Email not found''), st))
   \<and> (db_getWaitlistEmail db e = Some r \<longrightarrow>
        fst (db_regenerateConfirmationToken db e newToken) = Inr newToken
      \<and> db_getWaitlistEmail (snd (db_regenerateConfirmationToken db e newToken)) e =
          Some (r\<lparr>confirmationToken := Some newToken\<rparr>))
   \<and> (db_getWaitlistEmail db e = None \<longrightarrow>
        db_regenerateConfirmationToken db e newToken = (Inl (Error ''Email not found''), db))"
proof (intro conjI impI)
  assume "mem_getWaitlistEmail st e = Some w"
  then have m: "mem_regenerateConfirmationToken st e newToken =
     (Inr newToken,
      st\<lparr>waitlistEmails := map_set e (w\<lparr>confirmationToken := Some newToken\<rparr>) (waitlistEmails st)\<rparr>)"
    by (simp add: mem_getWaitlistEmail_def mem_regenerate_found)
  then show "fst (mem_regenerateConfirmationToken st e newToken) = Inr newToken" by simp
  from m show "mem_getWaitlistEmail (snd (mem_regenerateConfirmationToken st e newToken)) e =
      Some (w\<lparr>confirmationToken := Some newToken\<rparr>)"
    by (simp add: mem_getWaitlistEmail_def map_get_map_set)
next
  assume "mem_getWaitlistEmail st e = None"
  then show "mem_regenerateConfirmationToken st e newToken = (Inl (Error ''Email not found''), st)"
    by (simp add: mem_getWaitlistEmail_def mem_regenerate_not_found)
next
  assume "db_getWaitlistEmail db e = Some r"
  then have r: "r \<in> set (waitlist_emails db)" "email r = e"
    using db_getWaitlistEmail_Some by blast+
  note m = db_regenerate_found [OF assms r]
  then show "fst (db_regenerateConfirmationToken db e newToken) = Inr newToken" by simp
  from m db_getWaitlistEmail_after_regenerate [OF assms r]
  show "db_getWaitlistEmail (snd (db_regenerateConfirmationToken db e newToken)) e =
      Some (r\<lparr>confirmationToken := Some newToken\<rparr>)"
    by simp
next
  assume "db_getWaitlistEmail db e = None"
  then have "\<forall>w\<in>set (waitlist_emails db). email w \<noteq> e"
    by (simp add: db_getWaitlistEmail_None)
  then show "db_regenerateConfirmationToken db e newToken = (Inl (Error ''Email not found''), db)"
    by (rule db_regenerate_not_found)
qed

theorem regenerateConfirmationToken_spec_witness:
  "unique_ok (waitlist_emails db_pending)
   \<and> ''t2'' \<notin> set (tokens_of (waitlist_emails db_pending))
   \<and> mem_getWaitlistEmail mem_pending ''a@b.co'' = Some pending_entry
   \<and> db_getWaitlistEmail db_pending ''a@b.co'' = Some pending_entry
   \<and> mem_getWaitlistEmail mem_pending ''x@y.zz'' = None
   \<and> db_getWaitlistEmail db_pending ''x@y.zz'' = None
   \<and> fst (mem_regenerateConfirmationToken mem_pending ''a@b.co'' ''t2'') = Inr ''t2''
   \<and> mem_getWaitlistEmail (snd (mem_regenerateConfirmationToken mem_pending ''a@b.co'' ''t2'')) ''a@b.co'' =
        Some (pending_entry\<lparr>confirmationToken := Some ''t2''\<rparr>)
   \<and> mem_regenerateConfirmationToken mem_pending ''x@y.zz'' ''t2'' = (Inl (Error ''Email not found''), mem_pending)
   \<and> fst (db_regenerateConfirmationToken db_pending ''a@b.co'' ''t2'') = Inr ''t2''
   \<and> db_getWaitlistEmail (snd (db_regenerateConfirmationToken db_pending ''a@b.co'' ''t2'')) ''a@b.co'' =
        Some (pending_entry\<lparr>confirmationToken := Some ''t2''\<rparr>)
   \<and> db_regenerateConfirmationToken db_pending ''x@y.zz'' ''t2'' = (Inl (Error ''Email not found''), db_pending)"
proof -
  have h: "unique_ok (waitlist_emails db_pending)"
    "''t2'' \<notin> set (tokens_of (waitlist_emails db_pending))"
    by (simp_all add: example_defs unique_ok_def)
  have g: "mem_getWaitlistEmail mem_pending ''a@b.co'' = Some pending_entry"
    "db_getWaitlistEmail db_pending ''a@b.co'' = Some pending_entry"
    "mem_getWaitlistEmail mem_pending ''x@y.zz'' = None"
    "db_getWaitlistEmail db_pending ''x@y.zz'' = None"
    by (simp_all add: example_defs mem_getWaitlistEmail_def db_getWaitlistEmail_def first_def)
  show ?thesis
    using h g
      regenerateConfirmationToken_spec [OF h, of mem_pending "''a@b.co''" pending_entry pending_entry]
      regenerateConfirmationToken_spec [OF h, of mem_pending "''x@y.zz''" pending_entry pending_entry]
    by blast
qed

section \<open>A regenerated token replaces the old one\<close>

lemma map_set_map_set: "map_set k v (map_set k v' m) = map_set k v m"
  by (induction m) auto

lemma mem_old_token_no_match:
  assumes "distinct (map fst (waitlistEmails st))"
    and "distinct (tokens_of (map snd (waitlistEmails st)))"
    and "(e, w) \<in> set (waitlistEmails st)"
    and "confirmationToken w = Some a"
    and "b \<noteq> a"
    and "x \<in> set (map_set e (w\<lparr>confirmationToken := Some b\<rparr>) (waitlistEmails st))"
  shows "\<not> (confirmationToken (snd x) = Some a \<and> \<not> confirmed (snd x))"
proof
  assume m: "confirmationToken (snd x) = Some a \<and> \<not> confirmed (snd x)"
  from assms(6) have "x = (e, w\<lparr>confirmationToken := Some b\<rparr>)
      \<or> (x \<in> set (waitlistEmails st) \<and> fst x \<noteq> e)"
    by (simp add: set_map_set [OF assms(1)])
  then show False
  proof
    assume "x = (e, w\<lparr>confirmationToken := Some b\<rparr>)"
    with m assms(5) show False by simp
  next
    assume x: "x \<in> set (waitlistEmails st) \<and> fst x \<noteq> e"
    with m have "x = (e, w)"
      using token_unique_entries [OF assms(2) _ assms(3), of x a] assms(4) by simp
    with x show False by simp
  qed
qed

lemma mem_new_token_unique:
  assumes "distinct (map fst (waitlistEmails st))"
    and "b \<notin> set (tokens_of (map snd (waitlistEmails st)))"
    and "x \<in> set (map_set e w' (waitlistEmails st))"
    and "confirmationToken (snd x) = Some b"
  shows "x = (e, w')"
proof -
  from assms(3) have "x = (e, w') \<or> x \<in> set (waitlistEmails st)"
    using set_map_set_subset [of e w' "waitlistEmails st"] by auto
  moreover have "x \<notin> set (waitlistEmails st)"
  proof
    assume "x \<in> set (waitlistEmails st)"
    then have "snd x \<in> set (map snd (waitlistEmails st))" by simp
    with assms(4) have "b \<in> set (tokens_of (map snd (waitlistEmails st)))"
      unfolding tokens_of_iff by blast
    with assms(2) show False by simp
  qed
  ultimately show ?thesis by simp
qed

lemma mem_confirm_new_token:
  assumes "distinct (map fst (waitlistEmails st))"
    and "b \<notin> set (tokens_of (map snd (waitlistEmails st)))"
    and "\<not> confirmed w"
  shows "mem_confirmEmail
           (st\<lparr>waitlistEmails := map_set e (w\<lparr>confirmationToken := Some b\<rparr>) (waitlistEmails st)\<rparr>) b now =
         (Some (confirm_entry w now),
          st\<lparr>waitlistEmails := map_set e (confirm_entry w now) (waitlistEmails st)\<rparr>)"
proof -
  let ?w = "w\<lparr>confirmationToken := Some b\<rparr>"
  let ?es = "map_set e ?w (waitlistEmails st)"
  have "map_get ?es e = Some ?w" by (simp add: map_get_map_set)
  moreover have "distinct (map fst ?es)" using assms(1) by (rule distinct_map_set)
  ultimately have i: "(e, ?w) \<in> set ?es" by (simp add: map_get_Some_iff)
  have u: "\<forall>x\<in>set ?es. confirmationToken (snd x) = Some b \<and> \<not> confirmed (snd x) \<longrightarrow> x = (e, ?w)"
    using mem_new_token_unique [OF assms(1,2)] by blast
  have "mem_confirmEmail_loop ?es (st\<lparr>waitlistEmails := ?es\<rparr>) b now =
      (Some (confirm_entry ?w now),
       st\<lparr>waitlistEmails := ?es\<rparr>\<lparr>waitlistEmails :=
          map_set e (confirm_entry ?w now) (waitlistEmails (st\<lparr>waitlistEmails := ?es\<rparr>))\<rparr>)"
    by (rule mem_confirmEmail_loop_unique [OF i _ _ u]) (simp_all add: assms(3))
  moreover have "confirm_entry ?w now = confirm_entry w now"
    by (simp add: confirm_entry_def)
  moreover have "map_set e (confirm_entry w now) ?es = map_set e (confirm_entry w now) (waitlistEmails st)"
    by (rule map_set_map_set)
  ultimately show ?thesis by (simp add: mem_confirmEmail_def)
qed


lemma db_old_token_no_match:
  assumes "distinct (tokens_of rows)"
    and "w \<in> set rows" and "email w = e"
    and "confirmationToken w = Some a" and "b \<noteq> a"
  shows "filter (\<lambda>r. confirmationToken r = Some a \<and> \<not> confirmed r)
           (map (\<lambda>r. if email r = e then r\<lparr>confirmationToken := Some b\<rparr> else r) rows) = []"
proof -
  let ?f = "\<lambda>r. if email r = e then r\<lparr>confirmationToken := Some b\<rparr> else r"
  have n: "confirmationToken (?f x) \<noteq> Some a" if "x \<in> set rows" for x
  proof (cases "email x = e")
    case True
    with assms(5) show ?thesis by simp
  next
    case False
    with assms(3) have "x \<noteq> w" by auto
    with token_unique_rows [OF assms(1) that assms(2), of a] assms(4)
    have "confirmationToken x \<noteq> Some a" by blast
    with False show ?thesis by simp
  qed
  have "\<forall>y\<in>set (map ?f rows). \<not> (confirmationToken y = Some a \<and> \<not> confirmed y)"
  proof
    fix y assume "y \<in> set (map ?f rows)"
    then obtain x where "x \<in> set rows" "y = ?f x" by (auto simp only: set_map)
    with n [of x] show "\<not> (confirmationToken y = Some a \<and> \<not> confirmed y)" by simp
  qed
  then show ?thesis by (simp only: filter_empty_conv) 
qed

text \<open>
  Claim C5: for an unconfirmed waitlist entry with token A, after
  \<open>regenerateConfirmationToken\<close> has returned the new token B, \<open>confirmEmail(A)\<close> returns
  absent and \<open>confirmEmail(B)\<close> succeeds and confirms the entry.

  Stated for both implementations, on storages whose tokens are pairwise different and
  with B a token that no entry holds yet (the values of \<open>randomUUID()\<close>).
\<close>

theorem regenerate_invalidates_old_token:
  assumes "distinct (map fst (waitlistEmails st))"
    and "distinct (tokens_of (map snd (waitlistEmails st)))"
    and "mem_getWaitlistEmail st e = Some w"
    and "confirmationToken w = Some tokenA" and "\<not> confirmed w"
    and "tokenB \<notin> set (tokens_of (map snd (waitlistEmails st)))"
    and "unique_ok (waitlist_emails db)"
    and "db_getWaitlistEmail db e = Some r"
    and "confirmationToken r = Some tokenA" and "\<not> confirmed r"
    and "tokenB \<notin> set (tokens_of (waitlist_emails db))"
  shows
    "fst (mem_regenerateConfirmationToken st e tokenB) = Inr tokenB
   \<and> mem_confirmEmail (snd (mem_regenerateConfirmationToken st e tokenB)) tokenA now =
       (None, snd (mem_regenerateConfirmationToken st e tokenB))
   \<and> fst (mem_confirmEmail (snd (mem_regenerateConfirmationToken st e tokenB)) tokenB now) =
       Some (w\<lparr>confirmed := True, confirmedAt := Some now, confirmationToken := None\<rparr>)
   \<and> mem_getWaitlistEmail
        (snd (mem_confirmEmail (snd (mem_regenerateConfirmationToken st e tokenB)) tokenB now)) e =
       Some (w\<lparr>confirmed := True, confirmedAt := Some now, confirmationToken := None\<rparr>)
   \<and> fst (db_regenerateConfirmationToken db e tokenB) = Inr tokenB
   \<and> db_confirmEmail (snd (db_regenerateConfirmationToken db e tokenB)) tokenA now =
       (Inr None, snd (db_regenerateConfirmationToken db e tokenB))
   \<and> fst (db_confirmEmail (snd (db_regenerateConfirmationToken db e tokenB)) tokenB now) =
       Inr (Some (r\<lparr>confirmed := True, confirmedAt := Some now, confirmationToken := None\<rparr>))
   \<and> db_getWaitlistEmail
        (snd (db_confirmEmail (snd (db_regenerateConfirmationToken db e tokenB)) tokenB now)) e =
       Some (r\<lparr>confirmed := True, confirmedAt := Some now, confirmationToken := None\<rparr>)"
proof -
  let ?w = "w\<lparr>confirmationToken := Some tokenB\<rparr>"
  let ?s1 = "st\<lparr>waitlistEmails := map_set e ?w (waitlistEmails st)\<rparr>"
  from assms(3) have g: "map_get (waitlistEmails st) e = Some w"
    by (simp add: mem_getWaitlistEmail_def)
  with assms(1) have i: "(e, w) \<in> set (waitlistEmails st)"
    by (simp add: map_get_Some_iff)
  then have "snd (e, w) \<in> set (map snd (waitlistEmails st))" by (simp only: set_map) (rule imageI)
  with assms(4) have "tokenA \<in> set (tokens_of (map snd (waitlistEmails st)))"
    unfolding tokens_of_iff by auto
  with assms(6) have ne: "tokenB \<noteq> tokenA" by auto
  have m1: "mem_regenerateConfirmationToken st e tokenB = (Inr tokenB, ?s1)"
    using g by (rule mem_regenerate_found)
  have "\<forall>x\<in>set (waitlistEmails ?s1). \<not> (confirmationToken (snd x) = Some tokenA \<and> \<not> confirmed (snd x))"
    using mem_old_token_no_match [OF assms(1,2) i assms(4) ne] by simp
  then have m2: "mem_confirmEmail ?s1 tokenA now = (None, ?s1)"
    by (rule mem_confirmEmail_no_match)
  have m3: "mem_confirmEmail ?s1 tokenB now =
      (Some (confirm_entry w now),
       st\<lparr>waitlistEmails := map_set e (confirm_entry w now) (waitlistEmails st)\<rparr>)"
    using assms(1,6,5) by (rule mem_confirm_new_token)
  let ?f = "\<lambda>x. if email x = e then x\<lparr>confirmationToken := Some tokenB\<rparr> else x"
  let ?d1 = "db\<lparr>waitlist_emails := map ?f (waitlist_emails db)\<rparr>"
  let ?r = "r\<lparr>confirmationToken := Some tokenB\<rparr>"
  from assms(8) have r: "r \<in> set (waitlist_emails db)" "email r = e"
    using db_getWaitlistEmail_Some by blast+
  from r(1) assms(9) have "tokenA \<in> set (tokens_of (waitlist_emails db))"
    unfolding tokens_of_iff by auto
  with assms(11) have ne': "tokenB \<noteq> tokenA" by auto
  have d1: "db_regenerateConfirmationToken db e tokenB = (Inr tokenB, ?d1)"
    using assms(7,11) r by (rule db_regenerate_found)
  from assms(7) have dt: "distinct (tokens_of (waitlist_emails db))" by (simp add: unique_ok_def)
  have "filter (\<lambda>x. confirmationToken x = Some tokenA \<and> \<not> confirmed x) (waitlist_emails ?d1) = []"
    using db_old_token_no_match [OF dt r assms(9) ne'] by simp
  then have d2: "db_confirmEmail ?d1 tokenA now = (Inr None, ?d1)"
    by (rule db_confirmEmail_no_match)
  have u1: "unique_ok (waitlist_emails ?d1)"
    using unique_ok_regenerate [OF assms(7,11), of e] by simp
  have "?f r \<in> set (map ?f (waitlist_emails db))"
    using r(1) by (simp only: set_map) (rule imageI)
  with r(2) have r1: "?r \<in> set (waitlist_emails ?d1)" by simp
  have t1: "confirmationToken ?r = Some tokenB" "\<not> confirmed ?r" "email ?r = e"
    using assms(10) r(2) by simp_all
  have c: "confirm_entry ?r now = r\<lparr>confirmed := True, confirmedAt := Some now, confirmationToken := None\<rparr>"
    by (simp add: confirm_entry_def)
  note d3 = db_confirmEmail_match [OF u1 r1 t1(1,2), of now]
  note d4 = db_getWaitlistEmail_after_confirm [OF u1 r1 t1(1,2), of now]
  show ?thesis
  proof (intro conjI)
    show "fst (mem_regenerateConfirmationToken st e tokenB) = Inr tokenB"
      by (simp add: m1)
    show "mem_confirmEmail (snd (mem_regenerateConfirmationToken st e tokenB)) tokenA now =
       (None, snd (mem_regenerateConfirmationToken st e tokenB))"
      by (simp add: m1 m2)
    show "fst (mem_confirmEmail (snd (mem_regenerateConfirmationToken st e tokenB)) tokenB now) =
       Some (w\<lparr>confirmed := True, confirmedAt := Some now, confirmationToken := None\<rparr>)"
      by (simp add: m1 m3 confirm_entry_def)
    show "mem_getWaitlistEmail
        (snd (mem_confirmEmail (snd (mem_regenerateConfirmationToken st e tokenB)) tokenB now)) e =
       Some (w\<lparr>confirmed := True, confirmedAt := Some now, confirmationToken := None\<rparr>)"
      by (simp add: m1 m3 confirm_entry_def mem_getWaitlistEmail_def map_get_map_set)
    show "fst (db_regenerateConfirmationToken db e tokenB) = Inr tokenB"
      by (simp add: d1)
    show "db_confirmEmail (snd (db_regenerateConfirmationToken db e tokenB)) tokenA now =
       (Inr None, snd (db_regenerateConfirmationToken db e tokenB))"
      by (simp add: d1 d2)
    show "fst (db_confirmEmail (snd (db_regenerateConfirmationToken db e tokenB)) tokenB now) =
       Inr (Some (r\<lparr>confirmed := True, confirmedAt := Some now, confirmationToken := None\<rparr>))"
      using d3 by (simp only: d1 snd_conv fst_conv c)
    show "db_getWaitlistEmail
        (snd (db_confirmEmail (snd (db_regenerateConfirmationToken db e tokenB)) tokenB now)) e =
       Some (r\<lparr>confirmed := True, confirmedAt := Some now, confirmationToken := None\<rparr>)"
      using d3 d4 by (simp only: d1 snd_conv fst_conv c t1(3))
  qed
qed

theorem regenerate_invalidates_old_token_witness:
  "distinct (map fst (waitlistEmails mem_pending))
   \<and> distinct (tokens_of (map snd (waitlistEmails mem_pending)))
   \<and> mem_getWaitlistEmail mem_pending ''a@b.co'' = Some pending_entry
   \<and> confirmationToken pending_entry = Some ''t1'' \<and> \<not> confirmed pending_entry
   \<and> ''t2'' \<notin> set (tokens_of (map snd (waitlistEmails mem_pending)))
   \<and> unique_ok (waitlist_emails db_pending)
   \<and> db_getWaitlistEmail db_pending ''a@b.co'' = Some pending_entry
   \<and> ''t2'' \<notin> set (tokens_of (waitlist_emails db_pending))
   \<and> fst (mem_regenerateConfirmationToken mem_pending ''a@b.co'' ''t2'') = Inr ''t2''
   \<and> mem_confirmEmail (snd (mem_regenerateConfirmationToken mem_pending ''a@b.co'' ''t2'')) ''t1'' 7 =
       (None, snd (mem_regenerateConfirmationToken mem_pending ''a@b.co'' ''t2''))
   \<and> fst (mem_confirmEmail (snd (mem_regenerateConfirmationToken mem_pending ''a@b.co'' ''t2'')) ''t2'' 7) =
       Some (pending_entry\<lparr>confirmed := True, confirmedAt := Some 7, confirmationToken := None\<rparr>)
   \<and> db_confirmEmail (snd (db_regenerateConfirmationToken db_pending ''a@b.co'' ''t2'')) ''t1'' 7 =
       (Inr None, snd (db_regenerateConfirmationToken db_pending ''a@b.co'' ''t2''))
   \<and> fst (db_confirmEmail (snd (db_regenerateConfirmationToken db_pending ''a@b.co'' ''t2'')) ''t2'' 7) =
       Inr (Some (pending_entry\<lparr>confirmed := True, confirmedAt := Some 7, confirmationToken := None\<rparr>))"
proof -
  have h: "distinct (map fst (waitlistEmails mem_pending))"
    "distinct (tokens_of (map snd (waitlistEmails mem_pending)))"
    "mem_getWaitlistEmail mem_pending ''a@b.co'' = Some pending_entry"
    "confirmationToken pending_entry = Some ''t1''" "\<not> confirmed pending_entry"
    "''t2'' \<notin> set (tokens_of (map snd (waitlistEmails mem_pending)))"
    "unique_ok (waitlist_emails db_pending)"
    "db_getWaitlistEmail db_pending ''a@b.co'' = Some pending_entry"
    "confirmationToken pending_entry = Some ''t1''" "\<not> confirmed pending_entry"
    "''t2'' \<notin> set (tokens_of (waitlist_emails db_pending))"
    by (simp_all add: example_defs unique_ok_def mem_getWaitlistEmail_def db_getWaitlistEmail_def first_def)
  show ?thesis
    using h regenerate_invalidates_old_token [OF h, of 7] by blast
qed

section \<open>What confirming leaves untouched\<close>

lemma mem_confirmEmail_frame:
  assumes "distinct (map fst (waitlistEmails st))"
  shows "mem_confirmEmail st t now = (None, st)
     \<or> (\<exists>i<length (waitlistEmails st).
          confirmationToken (snd (waitlistEmails st ! i)) = Some t
        \<and> \<not> confirmed (snd (waitlistEmails st ! i))
        \<and> (\<forall>j<i. \<not> (confirmationToken (snd (waitlistEmails st ! j)) = Some t
                       \<and> \<not> confirmed (snd (waitlistEmails st ! j))))
        \<and> mem_confirmEmail st t now =
            (Some (confirm_entry (snd (waitlistEmails st ! i)) now),
             st\<lparr>waitlistEmails := (waitlistEmails st)
                  [i := (fst (waitlistEmails st ! i), confirm_entry (snd (waitlistEmails st ! i)) now)]\<rparr>))"
proof (cases "find (\<lambda>x. confirmationToken (snd x) = Some t \<and> \<not> confirmed (snd x)) (waitlistEmails st)")
  case None
  then have "\<forall>x\<in>set (waitlistEmails st). \<not> (confirmationToken (snd x) = Some t \<and> \<not> confirmed (snd x))"
    by (auto simp: find_None_iff)
  then have "mem_confirmEmail st t now = (None, st)" by (rule mem_confirmEmail_no_match)
  then show ?thesis by simp
next
  case (Some x)
  then obtain i where i: "i < length (waitlistEmails st)"
      "confirmationToken (snd (waitlistEmails st ! i)) = Some t"
      "\<not> confirmed (snd (waitlistEmails st ! i))"
      "\<forall>j<i. \<not> (confirmationToken (snd (waitlistEmails st ! j)) = Some t
                 \<and> \<not> confirmed (snd (waitlistEmails st ! j)))"
    unfolding find_Some_iff by blast
  have "mem_confirmEmail st t now =
      (Some (confirm_entry (snd (waitlistEmails st ! i)) now),
       st\<lparr>waitlistEmails := map_set (fst (waitlistEmails st ! i))
            (confirm_entry (snd (waitlistEmails st ! i)) now) (waitlistEmails st)\<rparr>)"
    unfolding mem_confirmEmail_def using i by (rule mem_confirmEmail_loop_first)
  moreover have "map_set (fst (waitlistEmails st ! i))
            (confirm_entry (snd (waitlistEmails st ! i)) now) (waitlistEmails st) =
       (waitlistEmails st)
          [i := (fst (waitlistEmails st ! i), confirm_entry (snd (waitlistEmails st ! i)) now)]"
    using assms i(1) by (rule map_set_list_update) simp
  ultimately show ?thesis using i by auto
qed

lemma token_unique_index:
  assumes "unique_ok rows" and "i < length rows" and "j < length rows"
    and "confirmationToken (rows ! i) = Some t" and "confirmationToken (rows ! j) = Some t"
  shows "i = j"
proof -
  from assms(1) have d: "distinct (tokens_of rows)" "distinct (map id_w rows)"
    by (simp_all add: unique_ok_def)
  have "rows ! i = rows ! j"
    using d(1) _ _ assms(4,5) by (rule token_unique_rows) (simp_all add: assms(2,3))
  then have "map id_w rows ! i = map id_w rows ! j" using assms(2,3) by simp
  then show ?thesis using nth_eq_iff_index_eq [OF d(2), of i j] assms(2,3) by simp
qed

lemma db_confirmEmail_state:
  "snd (db_confirmEmail db t now) = db
   \<or> snd (db_confirmEmail db t now) =
       db\<lparr>waitlist_emails :=
            map (\<lambda>r. if confirmationToken r = Some t \<and> \<not> confirmed r
                      then confirm_entry r now else r) (waitlist_emails db)\<rparr>"
  by (simp add: db_confirmEmail_def update_returning_def Let_def)

text \<open>
  Claim C10: \<open>confirmEmail(token)\<close> modifies at most one waitlist entry, the first entry
  whose token is the given one and which is not confirmed, and leaves every other waitlist
  entry and every user record unchanged.

  Stated for both implementations by position: the users and the number of entries stay
  the same, and a position whose entry differs after the call held the first matching
  entry (so there is at most one). For the table this rests on its \<open>unique\<close> constraints:
  the UPDATE writes every matching row, and at most one row matches.
\<close>

theorem confirmEmail_frame:
  assumes "distinct (map fst (waitlistEmails st))"
    and "unique_ok (waitlist_emails db)"
  shows
    "users (snd (mem_confirmEmail st t now)) = users st
   \<and> length (waitlistEmails (snd (mem_confirmEmail st t now))) = length (waitlistEmails st)
   \<and> (\<forall>j<length (waitlistEmails st).
        waitlistEmails (snd (mem_confirmEmail st t now)) ! j \<noteq> waitlistEmails st ! j \<longrightarrow>
          confirmationToken (snd (waitlistEmails st ! j)) = Some t
        \<and> \<not> confirmed (snd (waitlistEmails st ! j))
        \<and> (\<forall>i<j. \<not> (confirmationToken (snd (waitlistEmails st ! i)) = Some t
                       \<and> \<not> confirmed (snd (waitlistEmails st ! i)))))
   \<and> users_table (snd (db_confirmEmail db t now)) = users_table db
   \<and> length (waitlist_emails (snd (db_confirmEmail db t now))) = length (waitlist_emails db)
   \<and> (\<forall>j<length (waitlist_emails db).
        waitlist_emails (snd (db_confirmEmail db t now)) ! j \<noteq> waitlist_emails db ! j \<longrightarrow>
          confirmationToken (waitlist_emails db ! j) = Some t
        \<and> \<not> confirmed (waitlist_emails db ! j)
        \<and> (\<forall>i<j. \<not> (confirmationToken (waitlist_emails db ! i) = Some t
                       \<and> \<not> confirmed (waitlist_emails db ! i))))"
proof -
  have mem: "users (snd (mem_confirmEmail st t now)) = users st
   \<and> length (waitlistEmails (snd (mem_confirmEmail st t now))) = length (waitlistEmails st)
   \<and> (\<forall>j<length (waitlistEmails st).
        waitlistEmails (snd (mem_confirmEmail st t now)) ! j \<noteq> waitlistEmails st ! j \<longrightarrow>
          confirmationToken (snd (waitlistEmails st ! j)) = Some t
        \<and> \<not> confirmed (snd (waitlistEmails st ! j))
        \<and> (\<forall>i<j. \<not> (confirmationToken (snd (waitlistEmails st ! i)) = Some t
                       \<and> \<not> confirmed (snd (waitlistEmails st ! i)))))"
    using mem_confirmEmail_frame [OF assms(1), of t now]
  proof
    assume "mem_confirmEmail st t now = (None, st)"
    then show ?thesis by simp
  next
    assume "\<exists>i<length (waitlistEmails st).
          confirmationToken (snd (waitlistEmails st ! i)) = Some t
        \<and> \<not> confirmed (snd (waitlistEmails st ! i))
        \<and> (\<forall>j<i. \<not> (confirmationToken (snd (waitlistEmails st ! j)) = Some t
                       \<and> \<not> confirmed (snd (waitlistEmails st ! j))))
        \<and> mem_confirmEmail st t now =
            (Some (confirm_entry (snd (waitlistEmails st ! i)) now),
             st\<lparr>waitlistEmails := (waitlistEmails st)
                  [i := (fst (waitlistEmails st ! i), confirm_entry (snd (waitlistEmails st ! i)) now)]\<rparr>)"
    then obtain i where i: "i < length (waitlistEmails st)"
        "confirmationToken (snd (waitlistEmails st ! i)) = Some t"
        "\<not> confirmed (snd (waitlistEmails st ! i))"
        "\<forall>j<i. \<not> (confirmationToken (snd (waitlistEmails st ! j)) = Some t
                   \<and> \<not> confirmed (snd (waitlistEmails st ! j)))"
        "snd (mem_confirmEmail st t now) =
             st\<lparr>waitlistEmails := (waitlistEmails st)
                  [i := (fst (waitlistEmails st ! i), confirm_entry (snd (waitlistEmails st ! i)) now)]\<rparr>"
      by auto
    have "j = i" if "waitlistEmails (snd (mem_confirmEmail st t now)) ! j \<noteq> waitlistEmails st ! j" for j
      using that unfolding i(5) by (cases "j = i") simp_all
    with i(1-4) show ?thesis unfolding i(5) by auto
  qed
  let ?c = "\<lambda>r. confirmationToken r = Some t \<and> \<not> confirmed r"
  let ?f = "\<lambda>r. if ?c r then confirm_entry r now else r"
  have st: "waitlist_emails (snd (db_confirmEmail db t now)) = waitlist_emails db
      \<or> waitlist_emails (snd (db_confirmEmail db t now)) = map ?f (waitlist_emails db)"
    using db_confirmEmail_state [of db t now] by auto
  have u: "users_table (snd (db_confirmEmail db t now)) = users_table db"
    using db_confirmEmail_state [of db t now] by auto
  have l: "length (waitlist_emails (snd (db_confirmEmail db t now))) = length (waitlist_emails db)"
    using st by auto
  have c: "?c (waitlist_emails db ! j) \<and> (\<forall>i<j. \<not> ?c (waitlist_emails db ! i))"
    if j: "j < length (waitlist_emails db)"
      and ne: "waitlist_emails (snd (db_confirmEmail db t now)) ! j \<noteq> waitlist_emails db ! j" for j
  proof -
    from st ne have "map ?f (waitlist_emails db) ! j \<noteq> waitlist_emails db ! j" by auto
    with j have cj: "?c (waitlist_emails db ! j)" by (simp split: if_splits)
    have "\<not> ?c (waitlist_emails db ! i)" if "i < j" for i
    proof
      assume "?c (waitlist_emails db ! i)"
      with cj token_unique_index [OF assms(2), of i j t] j that have "i = j" by simp
      with that show False by simp
    qed
    with cj show ?thesis by blast
  qed
  from mem u l c show ?thesis by blast
qed


theorem confirmEmail_frame_witness:
  "distinct (map fst (waitlistEmails mem_two))
   \<and> unique_ok (waitlist_emails db_two)
   \<and> users (snd (mem_confirmEmail mem_two ''t9'' 5)) = users mem_two
   \<and> length (waitlistEmails (snd (mem_confirmEmail mem_two ''t9'' 5))) = 2
   \<and> waitlistEmails (snd (mem_confirmEmail mem_two ''t9'' 5)) ! 0 = waitlistEmails mem_two ! 0
   \<and> waitlistEmails (snd (mem_confirmEmail mem_two ''t9'' 5)) ! 1 \<noteq> waitlistEmails mem_two ! 1
   \<and> confirmationToken (snd (waitlistEmails mem_two ! 1)) = Some ''t9''
   \<and> \<not> confirmed (snd (waitlistEmails mem_two ! 1))
   \<and> users_table (snd (db_confirmEmail db_two ''t9'' 5)) = users_table db_two
   \<and> length (waitlist_emails (snd (db_confirmEmail db_two ''t9'' 5))) = 2
   \<and> waitlist_emails (snd (db_confirmEmail db_two ''t9'' 5)) ! 0 = waitlist_emails db_two ! 0
   \<and> waitlist_emails (snd (db_confirmEmail db_two ''t9'' 5)) ! 1 \<noteq> waitlist_emails db_two ! 1
   \<and> confirmationToken (waitlist_emails db_two ! 1) = Some ''t9''
   \<and> \<not> confirmed (waitlist_emails db_two ! 1)"
proof -
  have h: "distinct (map fst (waitlistEmails mem_two))" "unique_ok (waitlist_emails db_two)"
    by (simp_all add: example_defs unique_ok_def)
  have m: "waitlistEmails (snd (mem_confirmEmail mem_two ''t9'' 5)) =
      [(''a@b.co'', pending_entry), (''c@d.co'', confirm_entry other_entry 5)]"
    by (simp add: mem_confirmEmail_def mem_two_def pending_entry_def other_entry_def Let_def)
  have d: "waitlist_emails (snd (db_confirmEmail db_two ''t9'' 5)) =
      [pending_entry, confirm_entry other_entry 5]"
    by (simp add: db_confirmEmail_def update_returning_def db_two_def pending_entry_def
        other_entry_def unique_ok_def confirm_entry_def Let_def)
  have c: "confirm_entry other_entry 5 \<noteq> other_entry"
    by (simp add: confirm_entry_def other_entry_def)
  have l: "length (waitlistEmails mem_two) = 2" "length (waitlist_emails db_two) = 2"
    "waitlistEmails mem_two ! 0 = (''a@b.co'', pending_entry)"
    "waitlistEmails mem_two ! 1 = (''c@d.co'', other_entry)"
    "waitlist_emails db_two ! 0 = pending_entry"
    "waitlist_emails db_two ! 1 = other_entry"
    by (simp_all add: mem_two_def db_two_def)
  note th = confirmEmail_frame [OF h, of "''t9''" 5]
  have j: "(1::nat) < 2" by simp
  from th have t1: "users (snd (mem_confirmEmail mem_two ''t9'' 5)) = users mem_two"
    and t2: "length (waitlistEmails (snd (mem_confirmEmail mem_two ''t9'' 5))) = 2"
    and t4: "users_table (snd (db_confirmEmail db_two ''t9'' 5)) = users_table db_two"
    and t5: "length (waitlist_emails (snd (db_confirmEmail db_two ''t9'' 5))) = 2"
    by (simp_all only: l)
  from th have "waitlistEmails (snd (mem_confirmEmail mem_two ''t9'' 5)) ! 1 \<noteq> waitlistEmails mem_two ! 1 \<longrightarrow>
       confirmationToken (snd (waitlistEmails mem_two ! 1)) = Some ''t9''
       \<and> \<not> confirmed (snd (waitlistEmails mem_two ! 1))"
    using j unfolding l(1) by blast
  moreover have n1: "waitlistEmails (snd (mem_confirmEmail mem_two ''t9'' 5)) ! 1 \<noteq> waitlistEmails mem_two ! 1"
    unfolding m l using c by simp
  ultimately have t3: "confirmationToken (snd (waitlistEmails mem_two ! 1)) = Some ''t9''
       \<and> \<not> confirmed (snd (waitlistEmails mem_two ! 1))" by blast
  from th have "waitlist_emails (snd (db_confirmEmail db_two ''t9'' 5)) ! 1 \<noteq> waitlist_emails db_two ! 1 \<longrightarrow>
       confirmationToken (waitlist_emails db_two ! 1) = Some ''t9''
       \<and> \<not> confirmed (waitlist_emails db_two ! 1)"
    using j unfolding l(2) by blast
  moreover have n2: "waitlist_emails (snd (db_confirmEmail db_two ''t9'' 5)) ! 1 \<noteq> waitlist_emails db_two ! 1"
    unfolding d l using c by simp
  ultimately have t6: "confirmationToken (waitlist_emails db_two ! 1) = Some ''t9''
       \<and> \<not> confirmed (waitlist_emails db_two ! 1)" by blast
  have z1: "waitlistEmails (snd (mem_confirmEmail mem_two ''t9'' 5)) ! 0 = waitlistEmails mem_two ! 0"
    unfolding m l by simp
  have z2: "waitlist_emails (snd (db_confirmEmail db_two ''t9'' 5)) ! 0 = waitlist_emails db_two ! 0"
    unfolding d l by simp
  from h t1 t2 t3 t4 t5 t6 n1 n2 z1 z2 show ?thesis by blast
qed

section \<open>The routes\<close>

lemma db_addToWaitlist_fresh:
  assumes "unique_ok (waitlist_emails db)"
    and "default_id \<notin> set (map id_w (waitlist_emails db))"
    and "new_token \<notin> set (tokens_of (waitlist_emails db))"
    and "\<forall>w\<in>set (waitlist_emails db). email w \<noteq> ins_email ins"
  shows "db_addToWaitlist db ins default_id new_token now =
     (Inr \<lparr>id_w = default_id, email = ins_email ins, createdAt = now, confirmed = False,
           confirmationToken = Some new_token, confirmedAt = None\<rparr>,
      db\<lparr>waitlist_emails := waitlist_emails db @
           [\<lparr>id_w = default_id, email = ins_email ins, createdAt = now, confirmed = False,
             confirmationToken = Some new_token, confirmedAt = None\<rparr>]\<rparr>)"
proof -
  have t: "tokens_of (xs @ [r]) =
      tokens_of xs @ (case confirmationToken r of None \<Rightarrow> [] | Some u \<Rightarrow> [u])" for xs r
    by (induction xs) (auto split: option.splits)
  from assms(4) have "ins_email ins \<notin> set (map email (waitlist_emails db))" by auto
  with assms(1,2,3) have "unique_ok (waitlist_emails db @
           [\<lparr>id_w = default_id, email = ins_email ins, createdAt = now, confirmed = False,
             confirmationToken = Some new_token, confirmedAt = None\<rparr>])"
    by (simp add: unique_ok_def t)
  then show ?thesis
    by (simp add: db_addToWaitlist_def insert_returning_def Let_def)
qed

text \<open>
  Claim C7: for a request to POST /api/waitlist, if the body fails validation the response
  is a 400 error; else if an entry with that e-mail address exists the response is the 409
  conflict and no entry is created; otherwise an entry is created and the response is 201
  with the submitted address in the body.

  In the last case the INSERT has to pass the constraints of the table: the table
  satisfies them before, and the identifier and the token drawn for the new row are held
  by no row.
\<close>

theorem post_waitlist_spec:
  "(parse req_body = Inl errors \<longrightarrow>
      post_waitlist parse db req_body default_id new_token now =
        (\<lparr>status = 400, body = [(''message'', JString (zod_message errors))]\<rparr>, db))
 \<and> (parse req_body = Inr v \<and> (\<exists>w\<in>set (waitlist_emails db). email w = ins_email v) \<longrightarrow>
      post_waitlist parse db req_body default_id new_token now =
        (\<lparr>status = 409, body = [(''message'', JString ''Email already registered for waitlist'')]\<rparr>, db))
 \<and> (parse req_body = Inr v \<and> (\<forall>w\<in>set (waitlist_emails db). email w \<noteq> ins_email v)
      \<and> unique_ok (waitlist_emails db)
      \<and> default_id \<notin> set (map id_w (waitlist_emails db))
      \<and> new_token \<notin> set (tokens_of (waitlist_emails db)) \<longrightarrow>
      post_waitlist parse db req_body default_id new_token now =
        (\<lparr>status = 201,
          body = [(''message'', JString ''Successfully added to waitlist''),
                  (''email'', JString (ins_email v))]\<rparr>,
         db\<lparr>waitlist_emails := waitlist_emails db @
           [\<lparr>id_w = default_id, email = ins_email v, createdAt = now, confirmed = False,
             confirmationToken = Some new_token, confirmedAt = None\<rparr>]\<rparr>))"
proof (intro conjI impI)
  assume "parse req_body = Inl errors"
  then show "post_waitlist parse db req_body default_id new_token now =
        (\<lparr>status = 400, body = [(''message'', JString (zod_message errors))]\<rparr>, db)"
    by (simp add: post_waitlist_def message_def)
next
  assume a: "parse req_body = Inr v \<and> (\<exists>w\<in>set (waitlist_emails db). email w = ins_email v)"
  then have "db_getWaitlistEmail db (ins_email v) \<noteq> None"
    by (simp add: db_getWaitlistEmail_None)
  then obtain x where "db_getWaitlistEmail db (ins_email v) = Some x" by blast
  with a show "post_waitlist parse db req_body default_id new_token now =
        (\<lparr>status = 409, body = [(''message'', JString ''Email already registered for waitlist'')]\<rparr>, db)"
    by (simp add: post_waitlist_def message_def)
next
  assume a: "parse req_body = Inr v \<and> (\<forall>w\<in>set (waitlist_emails db). email w \<noteq> ins_email v)
      \<and> unique_ok (waitlist_emails db)
      \<and> default_id \<notin> set (map id_w (waitlist_emails db))
      \<and> new_token \<notin> set (tokens_of (waitlist_emails db))"
  then have n: "db_getWaitlistEmail db (ins_email v) = None"
    by (simp add: db_getWaitlistEmail_None)
  from a have "db_addToWaitlist db v default_id new_token now =
     (Inr \<lparr>id_w = default_id, email = ins_email v, createdAt = now, confirmed = False,
           confirmationToken = Some new_token, confirmedAt = None\<rparr>,
      db\<lparr>waitlist_emails := waitlist_emails db @
           [\<lparr>id_w = default_id, email = ins_email v, createdAt = now, confirmed = False,
             confirmationToken = Some new_token, confirmedAt = None\<rparr>]\<rparr>)"
    using db_addToWaitlist_fresh [of db default_id new_token v now] by blast
  with a n show "post_waitlist parse db req_body default_id new_token now =
        (\<lparr>status = 201,
          body = [(''message'', JString ''Successfully added to waitlist''),
                  (''email'', JString (ins_email v))]\<rparr>,
         db\<lparr>waitlist_emails := waitlist_emails db @
           [\<lparr>id_w = default_id, email = ins_email v, createdAt = now, confirmed = False,
             confirmationToken = Some new_token, confirmedAt = None\<rparr>]\<rparr>)"
    by (simp add: post_waitlist_def)
qed

theorem post_waitlist_spec_witness:
  "example_parse ''bad'' = Inl [''Please enter a valid email address'']
 \<and> post_waitlist example_parse db_pending ''bad'' ''i2'' ''t2'' 3 =
      (\<lparr>status = 400, body = [(''message'', JString ''Please enter a valid email address'')]\<rparr>, db_pending)
 \<and> example_parse ''a@b.co'' = Inr \<lparr>ins_email = ''a@b.co''\<rparr>
 \<and> pending_entry \<in> set (waitlist_emails db_pending)
 \<and> email pending_entry = ''a@b.co''
 \<and> post_waitlist example_parse db_pending ''a@b.co'' ''i2'' ''t2'' 3 =
      (\<lparr>status = 409, body = [(''message'', JString ''Email already registered for waitlist'')]\<rparr>, db_pending)
 \<and> example_parse ''c@d.co'' = Inr \<lparr>ins_email = ''c@d.co''\<rparr>
 \<and> unique_ok (waitlist_emails db_pending)
 \<and> ''i2'' \<notin> set (map id_w (waitlist_emails db_pending))
 \<and> ''t2'' \<notin> set (tokens_of (waitlist_emails db_pending))
 \<and> post_waitlist example_parse db_pending ''c@d.co'' ''i2'' ''t2'' 3 =
      (\<lparr>status = 201,
        body = [(''message'', JString ''Successfully added to waitlist''),
                (''email'', JString ''c@d.co'')]\<rparr>,
       db_pending\<lparr>waitlist_emails := waitlist_emails db_pending @
         [\<lparr>id_w = ''i2'', email = ''c@d.co'', createdAt = 3, confirmed = False,
           confirmationToken = Some ''t2'', confirmedAt = None\<rparr>]\<rparr>)"
proof -
  have p: "example_parse ''bad'' = Inl [''Please enter a valid email address'']"
    "example_parse ''a@b.co'' = Inr \<lparr>ins_email = ''a@b.co''\<rparr>"
    "example_parse ''c@d.co'' = Inr \<lparr>ins_email = ''c@d.co''\<rparr>"
    by (simp_all add: example_parse_def)
  have z: "zod_message [''Please enter a valid email address''] = ''Please enter a valid email address''"
    by (simp add: zod_message_def)
  have g: "pending_entry \<in> set (waitlist_emails db_pending)" "email pending_entry = ''a@b.co''"
    "\<forall>w\<in>set (waitlist_emails db_pending). email w \<noteq> ''c@d.co''"
    "unique_ok (waitlist_emails db_pending)"
    "''i2'' \<notin> set (map id_w (waitlist_emails db_pending))"
    "''t2'' \<notin> set (tokens_of (waitlist_emails db_pending))"
    by (simp_all add: example_defs unique_ok_def)
  from p(1) z have a: "post_waitlist example_parse db_pending ''bad'' ''i2'' ''t2'' 3 =
      (\<lparr>status = 400, body = [(''message'', JString ''Please enter a valid email address'')]\<rparr>, db_pending)"
    using post_waitlist_spec [of example_parse "''bad''" "[''Please enter a valid email address'']"
        db_pending "''i2''" "''t2''" 3 "\<lparr>ins_email = ''a@b.co''\<rparr>"]
    by simp
  from p(2) g(1,2) have b: "post_waitlist example_parse db_pending ''a@b.co'' ''i2'' ''t2'' 3 =
      (\<lparr>status = 409, body = [(''message'', JString ''Email already registered for waitlist'')]\<rparr>, db_pending)"
    using post_waitlist_spec [of example_parse "''a@b.co''" "[]"
        db_pending "''i2''" "''t2''" 3 "\<lparr>ins_email = ''a@b.co''\<rparr>"]
    by auto
  from p(3) g(3-6) have c: "post_waitlist example_parse db_pending ''c@d.co'' ''i2'' ''t2'' 3 =
      (\<lparr>status = 201,
        body = [(''message'', JString ''Successfully added to waitlist''),
                (''email'', JString ''c@d.co'')]\<rparr>,
       db_pending\<lparr>waitlist_emails := waitlist_emails db_pending @
         [\<lparr>id_w = ''i2'', email = ''c@d.co'', createdAt = 3, confirmed = False,
           confirmationToken = Some ''t2'', confirmedAt = None\<rparr>]\<rparr>)"
    using post_waitlist_spec [of example_parse "''c@d.co''" "[]"
        db_pending "''i2''" "''t2''" 3 "\<lparr>ins_email = ''c@d.co''\<rparr>"]
    by simp
  from p g a b c show ?thesis by blast
qed

text \<open>
  Claim C8: for a request to POST /api/waitlist/resend-confirmation whose e-mail address
  names a waitlist entry with \<open>confirmed = true\<close>, the response is the 400 error with the
  message \<open>Email is already confirmed\<close>, and no token is regenerated: the storage is as
  before.
\<close>

theorem resend_confirmation_already_confirmed:
  assumes "parse req_body = Inr v"
    and "unique_ok (waitlist_emails db)"
    and "w \<in> set (waitlist_emails db)" and "email w = ins_email v" and "confirmed w"
  shows "post_waitlist_resend_confirmation parse node_env db req_body new_token =
     (\<lparr>status = 400, body = [(''message'', JString ''Email is already confirmed'')]\<rparr>, db)"
proof -
  from assms(2) have "distinct (map email (waitlist_emails db))" by (simp add: unique_ok_def)
  then have "db_getWaitlistEmail db (email w) = Some w"
    using assms(3) by (rule db_getWaitlistEmail_member)
  with assms(1,4,5) show ?thesis
    by (simp add: post_waitlist_resend_confirmation_def message_def)
qed

theorem resend_confirmation_already_confirmed_witness:
  "example_parse ''a@b.co'' = Inr \<lparr>ins_email = ''a@b.co''\<rparr>
 \<and> unique_ok (waitlist_emails db_confirmed)
 \<and> confirmed_entry \<in> set (waitlist_emails db_confirmed)
 \<and> email confirmed_entry = ''a@b.co'' \<and> confirmed confirmed_entry
 \<and> post_waitlist_resend_confirmation example_parse ''development'' db_confirmed ''a@b.co'' ''t2'' =
     (\<lparr>status = 400, body = [(''message'', JString ''Email is already confirmed'')]\<rparr>, db_confirmed)"
proof -
  have h: "example_parse ''a@b.co'' = Inr \<lparr>ins_email = ''a@b.co''\<rparr>"
    "unique_ok (waitlist_emails db_confirmed)"
    "confirmed_entry \<in> set (waitlist_emails db_confirmed)"
    "email confirmed_entry = ins_email \<lparr>ins_email = ''a@b.co''\<rparr>" "confirmed confirmed_entry"
    by (simp_all add: example_parse_def example_defs unique_ok_def)
  from h resend_confirmation_already_confirmed [of example_parse "''a@b.co''"
      "\<lparr>ins_email = ''a@b.co''\<rparr>" db_confirmed confirmed_entry "''development''" "''t2''"]
  show ?thesis by simp
qed

section \<open>Confirmed entries hold no token\<close>

lemma confirmed_settled_map_set:
  assumes "confirmed_settled (map snd m)"
    and "confirmed v \<longrightarrow> confirmedAt v \<noteq> None \<and> confirmationToken v = None"
  shows "confirmed_settled (map snd (map_set k v m))"
proof -
  have "x = v \<or> x \<in> set (map snd m)" if "x \<in> set (map snd (map_set k v m))" for x
    using that set_map_set_subset [of k v m] by auto
  with assms show ?thesis unfolding confirmed_settled_def by blast
qed

lemma confirmed_settled_mem_confirmEmail:
  assumes "confirmed_settled (map snd (waitlistEmails st))"
  shows "confirmed_settled (map snd (waitlistEmails (snd (mem_confirmEmail st t now))))"
  using mem_confirmEmail_loop_state [of "waitlistEmails st" st t now]
proof
  assume "snd (mem_confirmEmail_loop (waitlistEmails st) st t now) = st"
  with assms show ?thesis by (simp add: mem_confirmEmail_def)
next
  assume "\<exists>e w. snd (mem_confirmEmail_loop (waitlistEmails st) st t now) =
        st\<lparr>waitlistEmails := map_set e (confirm_entry w now) (waitlistEmails st)\<rparr>"
  then obtain e w where "snd (mem_confirmEmail st t now) =
        st\<lparr>waitlistEmails := map_set e (confirm_entry w now) (waitlistEmails st)\<rparr>"
    unfolding mem_confirmEmail_def by blast
  moreover have "confirmed_settled (map snd (map_set e (confirm_entry w now) (waitlistEmails st)))"
    using assms by (rule confirmed_settled_map_set) (simp add: confirm_entry_def)
  ultimately show ?thesis by simp
qed

lemma confirmed_settled_mem_addToWaitlist:
  assumes "confirmed_settled (map snd (waitlistEmails st))"
  shows "confirmed_settled (map snd (waitlistEmails (snd (mem_addToWaitlist st ins i tok now))))"
  unfolding mem_addToWaitlist_def Let_def snd_conv
  using confirmed_settled_map_set [OF assms] by simp

lemma confirmed_settled_mem_regenerate:
  assumes "confirmed_settled (map snd (waitlistEmails st))"
    and "\<forall>w. mem_getWaitlistEmail st e = Some w \<longrightarrow> \<not> confirmed w"
  shows "confirmed_settled (map snd (waitlistEmails (snd (mem_regenerateConfirmationToken st e b))))"
proof (cases "map_get (waitlistEmails st) e")
  case None
  with assms(1) show ?thesis by (simp add: mem_regenerateConfirmationToken_def)
next
  case (Some w)
  with assms(2) have "\<not> confirmed w" by (simp add: mem_getWaitlistEmail_def)
  then have "confirmed_settled (map snd (map_set e (w\<lparr>confirmationToken := Some b\<rparr>) (waitlistEmails st)))"
    using confirmed_settled_map_set [OF assms(1)] by simp
  with Some show ?thesis by (simp add: mem_regenerateConfirmationToken_def)
qed

lemma confirmed_settled_db_addToWaitlist:
  assumes "confirmed_settled (waitlist_emails db)"
  shows "confirmed_settled (waitlist_emails (snd (db_addToWaitlist db ins i tok now)))"
  using assms
  by (auto simp: db_addToWaitlist_def insert_returning_def Let_def confirmed_settled_def)

lemma confirmed_settled_db_confirmEmail:
  assumes "confirmed_settled (waitlist_emails db)"
  shows "confirmed_settled (waitlist_emails (snd (db_confirmEmail db t now)))"
  using db_confirmEmail_state [of db t now] assms
  by (auto simp: confirmed_settled_def confirm_entry_def)

lemma db_regenerate_state:
  "snd (db_regenerateConfirmationToken db e b) = db
   \<or> snd (db_regenerateConfirmationToken db e b) =
       db\<lparr>waitlist_emails :=
            map (\<lambda>r. if email r = e then r\<lparr>confirmationToken := Some b\<rparr> else r) (waitlist_emails db)\<rparr>"
  by (simp add: db_regenerateConfirmationToken_def update_returning_def first_def Let_def
      split: list.splits)

lemma confirmed_settled_db_regenerate:
  assumes "confirmed_settled (waitlist_emails db)"
    and "\<forall>w\<in>set (waitlist_emails db). email w = e \<longrightarrow> \<not> confirmed w"
  shows "confirmed_settled (waitlist_emails (snd (db_regenerateConfirmationToken db e b)))"
  using db_regenerate_state [of db e b] assms
  by (auto simp: confirmed_settled_def)

lemma confirmed_settled_resend:
  assumes "confirmed_settled (waitlist_emails db)" and "unique_ok (waitlist_emails db)"
  shows "confirmed_settled (waitlist_emails
           (snd (post_waitlist_resend_confirmation parse node_env db req_body b)))"
proof (cases "parse req_body")
  case (Inl errors)
  with assms(1) show ?thesis by (simp add: post_waitlist_resend_confirmation_def)
next
  case (Inr v)
  show ?thesis
  proof (cases "db_getWaitlistEmail db (ins_email v)")
    case None
    with Inr assms(1) show ?thesis by (simp add: post_waitlist_resend_confirmation_def)
  next
    case (Some entry)
    show ?thesis
    proof (cases "confirmed entry")
      case True
      with Inr Some assms(1) show ?thesis by (simp add: post_waitlist_resend_confirmation_def)
    next
      case False
      from assms(2) have d: "distinct (map email (waitlist_emails db))" by (simp add: unique_ok_def)
      have "\<forall>w\<in>set (waitlist_emails db). email w = ins_email v \<longrightarrow> \<not> confirmed w"
      proof (intro ballI impI)
        fix w assume "w \<in> set (waitlist_emails db)" "email w = ins_email v"
        with db_getWaitlistEmail_member [OF d, of w] Some have "w = entry" by simp
        with False show "\<not> confirmed w" by simp
      qed
      with assms(1) have "confirmed_settled (waitlist_emails
          (snd (db_regenerateConfirmationToken db (ins_email v) b)))"
        by (rule confirmed_settled_db_regenerate)
      with Inr Some False show ?thesis
        by (auto simp: post_waitlist_resend_confirmation_def split: prod.splits sum.splits)
    qed
  qed
qed



lemma confirmed_settled_step:
  assumes "confirmed_settled (map snd (waitlistEmails st))"
    and "confirmed_settled (waitlist_emails db)"
  shows
    "confirmed_settled (map snd (waitlistEmails (snd (mem_createUser st insertUser i))))
   \<and> confirmed_settled (map snd (waitlistEmails (snd (mem_addToWaitlist st ins i tok now))))
   \<and> confirmed_settled (map snd (waitlistEmails (snd (mem_confirmEmail st t now))))
   \<and> ((\<forall>w. mem_getWaitlistEmail st e = Some w \<longrightarrow> \<not> confirmed w) \<longrightarrow>
        confirmed_settled (map snd (waitlistEmails (snd (mem_regenerateConfirmationToken st e b)))))
   \<and> confirmed_settled (waitlist_emails (snd (db_createUser db insertUser i)))
   \<and> confirmed_settled (waitlist_emails (snd (db_addToWaitlist db ins i tok now)))
   \<and> confirmed_settled (waitlist_emails (snd (db_confirmEmail db t now)))
   \<and> ((\<forall>w\<in>set (waitlist_emails db). email w = e \<longrightarrow> \<not> confirmed w) \<longrightarrow>
        confirmed_settled (waitlist_emails (snd (db_regenerateConfirmationToken db e b))))
   \<and> (unique_ok (waitlist_emails db) \<longrightarrow>
        confirmed_settled (waitlist_emails
          (snd (post_waitlist_resend_confirmation parse node_env db req_body b))))"
proof (intro conjI impI)
  show "confirmed_settled (map snd (waitlistEmails (snd (mem_createUser st insertUser i))))"
    using assms(1) by (simp add: mem_createUser_def Let_def)
  show "confirmed_settled (map snd (waitlistEmails (snd (mem_addToWaitlist st ins i tok now))))"
    using assms(1) by (rule confirmed_settled_mem_addToWaitlist)
  show "confirmed_settled (map snd (waitlistEmails (snd (mem_confirmEmail st t now))))"
    using assms(1) by (rule confirmed_settled_mem_confirmEmail)
  show "confirmed_settled (waitlist_emails (snd (db_createUser db insertUser i)))"
    using assms(2) by (simp add: db_createUser_def Let_def)
  show "confirmed_settled (waitlist_emails (snd (db_addToWaitlist db ins i tok now)))"
    using assms(2) by (rule confirmed_settled_db_addToWaitlist)
  show "confirmed_settled (waitlist_emails (snd (db_confirmEmail db t now)))"
    using assms(2) by (rule confirmed_settled_db_confirmEmail)
next
  assume "\<forall>w. mem_getWaitlistEmail st e = Some w \<longrightarrow> \<not> confirmed w"
  with assms(1)
  show "confirmed_settled (map snd (waitlistEmails (snd (mem_regenerateConfirmationToken st e b))))"
    by (rule confirmed_settled_mem_regenerate)
next
  assume "\<forall>w\<in>set (waitlist_emails db). email w = e \<longrightarrow> \<not> confirmed w"
  with assms(2)
  show "confirmed_settled (waitlist_emails (snd (db_regenerateConfirmationToken db e b)))"
    by (rule confirmed_settled_db_regenerate)
next
  assume "unique_ok (waitlist_emails db)"
  with assms(2)
  show "confirmed_settled (waitlist_emails
          (snd (post_waitlist_resend_confirmation parse node_env db req_body b)))"
    by (rule confirmed_settled_resend)
qed















section \<open>The count, and the way back from confirmed\<close>

lemma db_step_count:
  "db_getWaitlistCount (snd (db_step db c)) =
     db_getWaitlistCount db + (if fst (db_step db c) \<and> is_add c then 1 else 0)"
proof (cases c)
  case (CreateUser ins i)
  then show ?thesis by (simp add: db_createUser_def db_getWaitlistCount_def Let_def)
next
  case (AddToWaitlist ins i t now)
  then show ?thesis
    by (simp add: db_addToWaitlist_def insert_returning_def db_getWaitlistCount_def Let_def)
next
  case (ConfirmEmail t now)
  then show ?thesis
    using db_confirmEmail_state [of db t now] by (auto simp: db_getWaitlistCount_def)
next
  case (RegenerateConfirmationToken e t)
  then show ?thesis
    using db_regenerate_state [of db e t] by (auto simp: db_getWaitlistCount_def)
qed

lemma db_run_count:
  "db_getWaitlistCount (snd (db_run db cs)) = db_getWaitlistCount db + fst (db_run db cs)"
proof (induction cs arbitrary: db)
  case Nil
  then show ?case by simp
next
  case (Cons c cs)
  obtain ok db' where s: "db_step db c = (ok, db')" by (cases "db_step db c")
  obtain n db'' where r: "db_run db' cs = (n, db'')" by (cases "db_run db' cs")
  from Cons.IH [of db'] r have "db_getWaitlistCount db'' = db_getWaitlistCount db' + n" by simp
  moreover from db_step_count [of db c] s
  have "db_getWaitlistCount db' = db_getWaitlistCount db + (if ok \<and> is_add c then 1 else 0)"
    by simp
  ultimately show ?case using s r by simp
qed

lemma db_count_is_successful_adds:
  "db_getWaitlistCount (snd (db_run db_new cs)) = fst (db_run db_new cs)"
  using db_run_count [of db_new cs] by (simp add: db_getWaitlistCount_def db_new_def)

lemma mem_confirmEmail_count:
  "mem_getWaitlistCount (snd (mem_confirmEmail st t now)) = mem_getWaitlistCount st"
  using mem_confirmEmail_loop_key [of "waitlistEmails st" st t now]
proof
  assume "snd (mem_confirmEmail_loop (waitlistEmails st) st t now) = st"
  then show ?thesis by (simp add: mem_confirmEmail_def)
next
  assume "\<exists>e w. (e, w) \<in> set (waitlistEmails st) \<and>
      snd (mem_confirmEmail_loop (waitlistEmails st) st t now) =
        st\<lparr>waitlistEmails := map_set e (confirm_entry w now) (waitlistEmails st)\<rparr>"
  then obtain e w where e: "(e, w) \<in> set (waitlistEmails st)"
    and s: "snd (mem_confirmEmail st t now) =
        st\<lparr>waitlistEmails := map_set e (confirm_entry w now) (waitlistEmails st)\<rparr>"
    unfolding mem_confirmEmail_def by blast
  from e have "e \<in> fst ` set (waitlistEmails st)" by force
  then have "map_get (waitlistEmails st) e \<noteq> None" by (simp add: map_get_None_iff)
  then show ?thesis unfolding s by (simp add: mem_getWaitlistCount_def length_map_set)
qed

lemma mem_step_count:
  "mem_getWaitlistCount (snd (mem_step st c)) \<le>
     mem_getWaitlistCount st + (if fst (mem_step st c) \<and> is_add c then 1 else 0)"
proof (cases c)
  case (CreateUser ins i)
  then show ?thesis by (simp add: mem_createUser_def mem_getWaitlistCount_def Let_def)
next
  case (AddToWaitlist ins i t now)
  then show ?thesis
    by (simp add: mem_addToWaitlist_def mem_getWaitlistCount_def Let_def length_map_set)
next
  case (ConfirmEmail t now)
  then show ?thesis by (simp add: mem_confirmEmail_count)
next
  case (RegenerateConfirmationToken e t)
  then show ?thesis
    by (auto simp: mem_getWaitlistCount_def mem_regenerateConfirmationToken_def Let_def
        length_map_set split: option.splits)
qed

lemma mem_run_count:
  "mem_getWaitlistCount (snd (mem_run st cs)) \<le> mem_getWaitlistCount st + fst (mem_run st cs)"
proof (induction cs arbitrary: st)
  case Nil
  then show ?case by simp
next
  case (Cons c cs)
  obtain ok st' where s: "mem_step st c = (ok, st')" by (cases "mem_step st c")
  obtain n st'' where r: "mem_run st' cs = (n, st'')" by (cases "mem_run st' cs")
  from Cons.IH [of st'] r have "mem_getWaitlistCount st'' \<le> mem_getWaitlistCount st' + n" by simp
  moreover from mem_step_count [of st c] s
  have "mem_getWaitlistCount st' \<le> mem_getWaitlistCount st + (if ok \<and> is_add c then 1 else 0)"
    by simp
  ultimately show ?case using s r by simp
qed

text \<open>
  Claim C3: for every sequence of storage operations from the empty storage,
  \<open>getWaitlistCount()\<close> is exactly the number of \<open>addToWaitlist\<close> calls of the sequence
  that succeeded.

  \<open>DatabaseStorage\<close> has the property (lemma \<open>db_count_is_successful_adds\<close>). On
  \<open>MemStorage\<close> the count is at most that number (lemma \<open>mem_run_count\<close>) and falls short
  of it when an address is added twice: both calls return, and the map has one entry.
\<close>

theorem mem_count_after_duplicate_add:
  "fst (mem_run mem_new
        [AddToWaitlist \<lparr>ins_email = ''a@b.co''\<rparr> ''i1'' ''t1'' 1,
         AddToWaitlist \<lparr>ins_email = ''a@b.co''\<rparr> ''i2'' ''t2'' 2]) = 2
   \<and> mem_getWaitlistCount (snd (mem_run mem_new
        [AddToWaitlist \<lparr>ins_email = ''a@b.co''\<rparr> ''i1'' ''t1'' 1,
         AddToWaitlist \<lparr>ins_email = ''a@b.co''\<rparr> ''i2'' ''t2'' 2])) = 1"
  by (simp add: mem_new_def mem_addToWaitlist_def mem_getWaitlistCount_def Let_def)

lemma mem_confirmed_stays:
  assumes "mem_getWaitlistEmail st e = Some w" and "confirmed w"
  shows "\<exists>w'. mem_getWaitlistEmail (snd (mem_createUser st insertUser i)) e = Some w' \<and> confirmed w'"
    and "\<exists>w'. mem_getWaitlistEmail (snd (mem_confirmEmail st t now)) e = Some w' \<and> confirmed w'"
    and "\<exists>w'. mem_getWaitlistEmail (snd (mem_regenerateConfirmationToken st e' b)) e = Some w' \<and> confirmed w'"
proof -
  show "\<exists>w'. mem_getWaitlistEmail (snd (mem_createUser st insertUser i)) e = Some w' \<and> confirmed w'"
    using assms by (simp add: mem_createUser_def mem_getWaitlistEmail_def Let_def)
  show "\<exists>w'. mem_getWaitlistEmail (snd (mem_confirmEmail st t now)) e = Some w' \<and> confirmed w'"
    using mem_confirmEmail_loop_state [of "waitlistEmails st" st t now] assms
    by (auto simp: mem_confirmEmail_def mem_getWaitlistEmail_def map_get_map_set confirm_entry_def)
  show "\<exists>w'. mem_getWaitlistEmail (snd (mem_regenerateConfirmationToken st e' b)) e = Some w' \<and> confirmed w'"
    using assms
    by (auto simp: mem_regenerateConfirmationToken_def mem_getWaitlistEmail_def map_get_map_set
        split: option.splits)
qed

lemma db_confirmed_stays:
  assumes "w \<in> set (waitlist_emails db)" and "confirmed w"
  shows "\<exists>w'\<in>set (waitlist_emails (snd (db_createUser db insertUser i))).
           id_w w' = id_w w \<and> email w' = email w \<and> confirmed w'"
    and "\<exists>w'\<in>set (waitlist_emails (snd (db_addToWaitlist db ins i tok now))).
           id_w w' = id_w w \<and> email w' = email w \<and> confirmed w'"
    and "\<exists>w'\<in>set (waitlist_emails (snd (db_confirmEmail db t now))).
           id_w w' = id_w w \<and> email w' = email w \<and> confirmed w'"
    and "\<exists>w'\<in>set (waitlist_emails (snd (db_regenerateConfirmationToken db e b))).
           id_w w' = id_w w \<and> email w' = email w \<and> confirmed w'"
proof -
  show "\<exists>w'\<in>set (waitlist_emails (snd (db_createUser db insertUser i))).
           id_w w' = id_w w \<and> email w' = email w \<and> confirmed w'"
    using assms by (auto simp: db_createUser_def Let_def)
  show "\<exists>w'\<in>set (waitlist_emails (snd (db_addToWaitlist db ins i tok now))).
           id_w w' = id_w w \<and> email w' = email w \<and> confirmed w'"
    using assms by (auto simp: db_addToWaitlist_def insert_returning_def Let_def)
  have c: "\<exists>w'\<in>set (map f rows). id_w w' = id_w w \<and> email w' = email w \<and> confirmed w'"
    if "w \<in> set rows" "id_w (f w) = id_w w" "email (f w) = email w" "confirmed (f w)"
    for f :: "WaitlistEmail \<Rightarrow> WaitlistEmail" and rows :: "WaitlistEmail list"
    using that by (auto simp only: set_map intro!: bexI [of _ "f w"])
  show "\<exists>w'\<in>set (waitlist_emails (snd (db_confirmEmail db t now))).
           id_w w' = id_w w \<and> email w' = email w \<and> confirmed w'"
    using db_confirmEmail_state [of db t now]
  proof
    assume "snd (db_confirmEmail db t now) = db"
    with assms show ?thesis by auto
  next
    assume "snd (db_confirmEmail db t now) =
       db\<lparr>waitlist_emails :=
            map (\<lambda>r. if confirmationToken r = Some t \<and> \<not> confirmed r
                      then confirm_entry r now else r) (waitlist_emails db)\<rparr>"
    then show ?thesis using c [OF assms(1), of "\<lambda>r. if confirmationToken r = Some t \<and> \<not> confirmed r
                      then confirm_entry r now else r"] assms(2)
      by (simp add: confirm_entry_def)
  qed
  show "\<exists>w'\<in>set (waitlist_emails (snd (db_regenerateConfirmationToken db e b))).
           id_w w' = id_w w \<and> email w' = email w \<and> confirmed w'"
    using db_regenerate_state [of db e b]
  proof
    assume "snd (db_regenerateConfirmationToken db e b) = db"
    with assms show ?thesis by auto
  next
    assume "snd (db_regenerateConfirmationToken db e b) =
       db\<lparr>waitlist_emails :=
            map (\<lambda>r. if email r = e then r\<lparr>confirmationToken := Some b\<rparr> else r) (waitlist_emails db)\<rparr>"
    then show ?thesis
      using c [OF assms(1), of "\<lambda>r. if email r = e then r\<lparr>confirmationToken := Some b\<rparr> else r"] assms(2)
      by simp
  qed
qed

text \<open>
  Claim C4: for every waitlist entry and every storage operation, the \<open>confirmed\<close> flag of
  the entry changes from false to true only, never back.

  Every operation of \<open>DatabaseStorage\<close> keeps a confirmed row confirmed (lemma
  \<open>db_confirmed_stays\<close>), and so do \<open>createUser\<close>, \<open>confirmEmail\<close> and
  \<open>regenerateConfirmationToken\<close> of \<open>MemStorage\<close> (lemma \<open>mem_confirmed_stays\<close>).
  \<open>MemStorage.addToWaitlist\<close> does not: called with the address of a confirmed entry, it
  leaves an unconfirmed entry under that address.
\<close>

theorem mem_addToWaitlist_unconfirms:
  "map_option confirmed (mem_getWaitlistEmail mem_confirmed ''a@b.co'') = Some True
 \<and> map_option confirmed
      (mem_getWaitlistEmail
         (snd (mem_addToWaitlist mem_confirmed \<lparr>ins_email = ''a@b.co''\<rparr> ''i2'' ''t2'' 3)) ''a@b.co'') =
     Some False"
  by (simp add: mem_addToWaitlist_def example_defs mem_getWaitlistEmail_def Let_def)

end
